theory Spec2Isabelle
  imports Main "HOL-Library.Sublist"
begin

unbundle bit_operations_syntax

section \<open>Destinations, events and results\<close>

text \<open>
  An \<open>io.Writer\<close> value that the package can meet: the two process streams, a writer
  handed out by \<open>syslog.New\<close> (priority and tag), or a destination supplied by the caller.
  A caller's destination carries an identity and whether its dynamic type also
  satisfies \<open>io.Closer\<close> (a file does, a \<open>bytes.Buffer\<close> does not). \<open>os.Stderr\<close>,
  \<open>os.Stdout\<close> and syslog writers all have a \<open>Close\<close> method.
\<close>

datatype writer = Stderr | Stdout | Syslog int string | Sink nat bool

fun is_Closer :: "writer \<Rightarrow> bool" where
  "is_Closer Stderr = True"
| "is_Closer Stdout = True"
| "is_Closer (Syslog p t) = True"
| "is_Closer (Sink i c) = c"

text \<open>
  What the process does to the outside world, in order: a write of a text that its
  destination accepts, a write that its destination fails (it returns an error, or
  takes fewer bytes than it was given), or a call of \<open>Close\<close> on a closer.
\<close>

datatype event = Write writer string | FailedWrite writer string | CloseCall writer

text \<open>
  A call returns a value, ends the process through \<open>os.Exit\<close>, or panics.
\<close>

datatype 'a res = Return 'a | Exit int | Panic string

text \<open>
  The environment of one call, which the package does not control: the date, time and
  source position text that package \<open>log\<close> formats for given flags and call depth;
  whether \<open>syslog.New\<close> fails for a priority and tag (and with which error); the error,
  if any, that \<open>Close\<close> of a closer returns; how \<open>%v\<close> prints a closer; and whether a
  destination fails a write.
\<close>

record env =
  header :: "int \<Rightarrow> int \<Rightarrow> string"
  syslogFails :: "int \<Rightarrow> string \<Rightarrow> string option"
  closeFails :: "writer \<Rightarrow> string option"
  showv :: "writer \<Rightarrow> string"
  writeFails :: "writer \<Rightarrow> bool"

definition newline :: char where
  "newline = CHR 0x0A"

text \<open>One call of \<open>Write\<close> on a destination.\<close>

definition write_to :: "env \<Rightarrow> writer \<Rightarrow> string \<Rightarrow> event" where
  "write_to e d p = (if writeFails e d then FailedWrite d p else Write d p)"

text \<open>
  \<open>Write\<close> of the writer that \<open>io.MultiWriter\<close> makes of a list of destinations: each
  destination is written in turn, and the first one that fails ends the loop, so that
  the destinations behind it get nothing.
\<close>

fun multi_Write :: "env \<Rightarrow> writer list \<Rightarrow> string \<Rightarrow> event list" where
  "multi_Write e [] p = []"
| "multi_Write e (d # ds) p =
     (if writeFails e d then [FailedWrite d p] else Write d p # multi_Write e ds p)"

section \<open>Package log of the standard library\<close>

text \<open>
  A \<open>log.Logger\<close>: prefix, flags and output. The output is the list of destinations
  behind \<open>io.MultiWriter\<close> (one element for a plain writer such as \<open>os.Stderr\<close>). The
  flags are kept as the \<open>int\<close> that the caller passes.
\<close>

record log_Logger =
  logPrefix :: string
  logFlag :: int
  logOut :: "writer list"

definition Ldate :: int where "Ldate = 1"
definition Ltime :: int where "Ltime = 2"
definition Lmicroseconds :: int where "Lmicroseconds = 4"
definition Llongfile :: int where "Llongfile = 8"
definition Lshortfile :: int where "Lshortfile = 16"
definition LUTC :: int where "LUTC = 32"
definition Lmsgprefix :: int where "Lmsgprefix = 64"

definition log_New :: "writer list \<Rightarrow> string \<Rightarrow> int \<Rightarrow> log_Logger" where
  "log_New ws p f = \<lparr>logPrefix = p, logFlag = f, logOut = ws\<rparr>"

text \<open>
  The text of one record, as \<open>log.Logger.Output\<close> assembles it: the prefix and the
  header (the prefix first, unless the flag \<open>Lmsgprefix\<close> moves it behind the header),
  the message, and a newline when the message does not end in one.
\<close>

definition log_line :: "env \<Rightarrow> log_Logger \<Rightarrow> int \<Rightarrow> string \<Rightarrow> string" where
  "log_line e lg calldepth s =
     (if logFlag lg AND Lmsgprefix = 0
      then logPrefix lg @ header e (logFlag lg) calldepth
      else header e (logFlag lg) calldepth @ logPrefix lg)
     @ s @ (if s = [] \<or> last s \<noteq> newline then [newline] else [])"

definition log_Output :: "env \<Rightarrow> log_Logger \<Rightarrow> int \<Rightarrow> string \<Rightarrow> event list" where
  "log_Output e lg calldepth s = multi_Write e (logOut lg) (log_line e lg calldepth s)"

definition log_SetFlags :: "log_Logger \<Rightarrow> int \<Rightarrow> log_Logger" where
  "log_SetFlags lg f = lg\<lparr>logFlag := f\<rparr>"

section \<open>Package gologger: data\<close>

record Logger =
  infoLog :: log_Logger
  warnLog :: log_Logger
  errorLog :: log_Logger
  fatalLog :: log_Logger
  closers :: "writer list"
  initialized :: bool
  level :: int

record Verbose =
  enabled :: bool
  logger :: nat

definition sInfo :: int where "sInfo = 0"
definition sWarn :: int where "sWarn = 1"
definition sError :: int where "sError = 2"
definition sFatal :: int where "sFatal = 3"

definition labelInfo :: string where "labelInfo = ''[INFO]: ''"
definition labelWarn :: string where "labelWarn = ''[WARN]: ''"
definition labelErr :: string where "labelErr = ''[ERROR]: ''"
definition labelFatal :: string where "labelFatal = ''[FATAL]: ''"

definition flags :: int where
  "flags = Ldate OR Lmicroseconds OR Lshortfile"

definition initText :: string where
  "initText = ''[ERROR]: Logging before logger initiated!'' @ [newline]"

text \<open>
  The process state: the \<open>Logger\<close> objects allocated so far (a \<open>*Logger\<close> is an index
  into this list; an index beyond it is a pointer to no \<open>Logger\<close>, as \<open>nil\<close> is, and a
  call through it panics), the package variable \<open>defaultLogger\<close>, and the events so far.
  In the states that a process reaches, \<open>defaultLogger\<close> always points to a \<open>Logger\<close>
  (lemma \<open>reachable_inv\<close> below). The lock \<open>logLock\<close> is not modelled: calls run one after
  the other.
\<close>

record world =
  loggers :: "Logger list"
  defaultLogger :: nat
  trace :: "event list"

definition lookup :: "world \<Rightarrow> nat \<Rightarrow> Logger option" where
  "lookup w l = (if l < length (loggers w) then Some (loggers w ! l) else None)"

definition nil_deref :: string where
  "nil_deref = ''runtime error: invalid memory address or nil pointer dereference''"

definition andThen :: "'a res \<times> world \<Rightarrow> ('a \<Rightarrow> world \<Rightarrow> 'b res \<times> world) \<Rightarrow> 'b res \<times> world" where
  "andThen m f =
     (case m of
        (Return x, w) \<Rightarrow> f x w
      | (Exit n, w) \<Rightarrow> (Exit n, w)
      | (Panic p, w) \<Rightarrow> (Panic p, w))"

definition os_Exit :: "int \<Rightarrow> world \<Rightarrow> 'a res \<times> world" where
  "os_Exit code w = (Exit code, w)"

section \<open>Decimal printing, for the verb \<open>%d\<close>\<close>

definition digit :: "nat \<Rightarrow> char" where
  "digit n = ''0123456789'' ! (n mod 10)"

function show_nat :: "nat \<Rightarrow> string" where
  "show_nat n = (if n < 10 then [digit n] else show_nat (n div 10) @ [digit n])"
  by pat_completeness auto
termination
  by (relation "measure id") auto

declare show_nat.simps [simp del]

definition show_int :: "int \<Rightarrow> string" where
  "show_int i = (if i < 0 then CHR ''-'' # show_nat (nat (- i)) else show_nat (nat i))"

section \<open>Package gologger: operations\<close>

definition init_logger :: "world \<Rightarrow> world" where
  "init_logger w =
     w\<lparr>loggers := loggers w @
          [\<lparr>infoLog = log_New [Stderr] (initText @ labelInfo) flags,
            warnLog = log_New [Stderr] (initText @ labelWarn) flags,
            errorLog = log_New [Stderr] (initText @ labelErr) flags,
            fatalLog = log_New [Stderr] (initText @ labelFatal) flags,
            closers = [], initialized = False, level = 0\<rparr>],
       defaultLogger := length (loggers w)\<rparr>"

text \<open>
  The state after the package's \<open>init\<close> function: \<open>init_logger\<close> has run once.
\<close>

definition world0 :: world where
  "world0 = init_logger \<lparr>loggers = [], defaultLogger = 0, trace = []\<rparr>"

subsection \<open>gologger\_syslog.go\<close>

definition LOG_USER :: int where "LOG_USER = 8"
definition LOG_ERR :: int where "LOG_ERR = 3"
definition LOG_WARNING :: int where "LOG_WARNING = 4"
definition LOG_NOTICE :: int where "LOG_NOTICE = 5"

definition syslog_New :: "env \<Rightarrow> int \<Rightarrow> string \<Rightarrow> string + writer" where
  "syslog_New e priority tag =
     (case syslogFails e priority tag of
        Some err \<Rightarrow> Inl err
      | None \<Rightarrow> Inr (Syslog priority tag))"

definition setup_syslog ::
  "env \<Rightarrow> string \<Rightarrow> writer option \<times> writer option \<times> writer option \<times> string option" where
  "setup_syslog e src =
     (case syslog_New e (LOG_USER OR LOG_NOTICE) src of
        Inl err \<Rightarrow> (None, None, None, Some err)
      | Inr il \<Rightarrow>
     (case syslog_New e (LOG_USER OR LOG_WARNING) src of
        Inl err \<Rightarrow> (None, None, None, Some err)
      | Inr wl \<Rightarrow>
     (case syslog_New e (LOG_USER OR LOG_ERR) src of
        Inl err \<Rightarrow> (None, None, None, Some err)
      | Inr el \<Rightarrow> (Some il, Some wl, Some el, None))))"

subsection \<open>gologger.go\<close>

definition Logger_output :: "env \<Rightarrow> nat \<Rightarrow> int \<Rightarrow> int \<Rightarrow> string \<Rightarrow> world \<Rightarrow> unit res \<times> world" where
  "Logger_output e l s depth txt w =
     (if s = sInfo \<or> s = sWarn \<or> s = sError \<or> s = sFatal then
        (case lookup w l of
           None \<Rightarrow> (Panic nil_deref, w)
         | Some lg \<Rightarrow>
             (Return (),
              w\<lparr>trace := trace w @
                   log_Output e
                     (if s = sInfo then infoLog lg
                      else if s = sWarn then warnLog lg
                      else if s = sError then errorLog lg
                      else fatalLog lg)
                     (3 + depth) txt\<rparr>))
      else (Panic (''[FATAL]: Unrecognized Severity: '' @ show_int s @ [newline]), w))"

text \<open>
  The loop of \<open>Close\<close> over the closers: each is closed, and a failure is printed to
  standard error before the next closer is tried.
\<close>

fun close_all :: "env \<Rightarrow> writer list \<Rightarrow> event list" where
  "close_all e [] = []"
| "close_all e (c # cs) =
     CloseCall c #
     (case closeFails e c of
        Some err \<Rightarrow>
          [write_to e Stderr
             (''[ERROR]: Failed to close log '' @ showv e c @ '': '' @ err @ [newline])]
      | None \<Rightarrow> [])
     @ close_all e cs"

definition Logger_Close :: "env \<Rightarrow> nat \<Rightarrow> world \<Rightarrow> unit res \<times> world" where
  "Logger_Close e l w =
     (case lookup w l of
        None \<Rightarrow> (Panic nil_deref, w)
      | Some lg \<Rightarrow>
          if \<not> initialized lg then (Return (), w)
          else (Return (), w\<lparr>trace := trace w @ close_all e (closers lg)\<rparr>))"

definition Close :: "env \<Rightarrow> world \<Rightarrow> unit res \<times> world" where
  "Close e w = Logger_Close e (defaultLogger w) w"

text \<open>
  The logging functions take the text that \<open>fmt.Sprint\<close> or \<open>fmt.Sprintf\<close> made of
  their arguments; the \<open>ln\<close> forms take the operands as \<open>fmt.Sprintln\<close> joins them and
  add its final newline.
\<close>

definition Logger_Info :: "env \<Rightarrow> nat \<Rightarrow> string \<Rightarrow> world \<Rightarrow> unit res \<times> world" where
  "Logger_Info e l v w = Logger_output e l sInfo 0 v w"

definition Logger_InfoDepth :: "env \<Rightarrow> nat \<Rightarrow> int \<Rightarrow> string \<Rightarrow> world \<Rightarrow> unit res \<times> world" where
  "Logger_InfoDepth e l depth v w = Logger_output e l sInfo depth v w"

definition Logger_Infoln :: "env \<Rightarrow> nat \<Rightarrow> string \<Rightarrow> world \<Rightarrow> unit res \<times> world" where
  "Logger_Infoln e l v w = Logger_output e l sInfo 0 (v @ [newline]) w"

definition Logger_Infof :: "env \<Rightarrow> nat \<Rightarrow> string \<Rightarrow> world \<Rightarrow> unit res \<times> world" where
  "Logger_Infof e l v w = Logger_output e l sInfo 0 v w"

definition Info :: "env \<Rightarrow> string \<Rightarrow> world \<Rightarrow> unit res \<times> world" where
  "Info e v w = Logger_output e (defaultLogger w) sInfo 0 v w"

definition InfoDepth :: "env \<Rightarrow> int \<Rightarrow> string \<Rightarrow> world \<Rightarrow> unit res \<times> world" where
  "InfoDepth e depth v w = Logger_output e (defaultLogger w) sInfo depth v w"

definition Infoln :: "env \<Rightarrow> string \<Rightarrow> world \<Rightarrow> unit res \<times> world" where
  "Infoln e v w = Logger_output e (defaultLogger w) sInfo 0 (v @ [newline]) w"

definition Infof :: "env \<Rightarrow> string \<Rightarrow> world \<Rightarrow> unit res \<times> world" where
  "Infof e v w = Logger_output e (defaultLogger w) sInfo 0 v w"

definition Logger_Warning :: "env \<Rightarrow> nat \<Rightarrow> string \<Rightarrow> world \<Rightarrow> unit res \<times> world" where
  "Logger_Warning e l v w = Logger_output e l sWarn 0 v w"

definition Logger_WarningDepth :: "env \<Rightarrow> nat \<Rightarrow> int \<Rightarrow> string \<Rightarrow> world \<Rightarrow> unit res \<times> world" where
  "Logger_WarningDepth e l depth v w = Logger_output e l sWarn depth v w"

definition Logger_Warningln :: "env \<Rightarrow> nat \<Rightarrow> string \<Rightarrow> world \<Rightarrow> unit res \<times> world" where
  "Logger_Warningln e l v w = Logger_output e l sWarn 0 (v @ [newline]) w"

definition Logger_Warningf :: "env \<Rightarrow> nat \<Rightarrow> string \<Rightarrow> world \<Rightarrow> unit res \<times> world" where
  "Logger_Warningf e l v w = Logger_output e l sWarn 0 v w"

definition Warning :: "env \<Rightarrow> string \<Rightarrow> world \<Rightarrow> unit res \<times> world" where
  "Warning e v w = Logger_output e (defaultLogger w) sWarn 0 v w"

definition WarningDepth :: "env \<Rightarrow> int \<Rightarrow> string \<Rightarrow> world \<Rightarrow> unit res \<times> world" where
  "WarningDepth e depth v w = Logger_output e (defaultLogger w) sWarn depth v w"

definition Warningln :: "env \<Rightarrow> string \<Rightarrow> world \<Rightarrow> unit res \<times> world" where
  "Warningln e v w = Logger_output e (defaultLogger w) sWarn 0 (v @ [newline]) w"

definition Warningf :: "env \<Rightarrow> string \<Rightarrow> world \<Rightarrow> unit res \<times> world" where
  "Warningf e v w = Logger_output e (defaultLogger w) sWarn 0 v w"

definition Logger_Error :: "env \<Rightarrow> nat \<Rightarrow> string \<Rightarrow> world \<Rightarrow> unit res \<times> world" where
  "Logger_Error e l v w = Logger_output e l sError 0 v w"

definition Logger_ErrorDepth :: "env \<Rightarrow> nat \<Rightarrow> int \<Rightarrow> string \<Rightarrow> world \<Rightarrow> unit res \<times> world" where
  "Logger_ErrorDepth e l depth v w = Logger_output e l sError depth v w"

definition Logger_Errorln :: "env \<Rightarrow> nat \<Rightarrow> string \<Rightarrow> world \<Rightarrow> unit res \<times> world" where
  "Logger_Errorln e l v w = Logger_output e l sError 0 (v @ [newline]) w"

definition Logger_Errorf :: "env \<Rightarrow> nat \<Rightarrow> string \<Rightarrow> world \<Rightarrow> unit res \<times> world" where
  "Logger_Errorf e l v w = Logger_output e l sError 0 v w"

definition Error :: "env \<Rightarrow> string \<Rightarrow> world \<Rightarrow> unit res \<times> world" where
  "Error e v w = Logger_output e (defaultLogger w) sError 0 v w"

definition ErrorDepth :: "env \<Rightarrow> int \<Rightarrow> string \<Rightarrow> world \<Rightarrow> unit res \<times> world" where
  "ErrorDepth e depth v w = Logger_output e (defaultLogger w) sError depth v w"

definition Errorln :: "env \<Rightarrow> string \<Rightarrow> world \<Rightarrow> unit res \<times> world" where
  "Errorln e v w = Logger_output e (defaultLogger w) sError 0 (v @ [newline]) w"

definition Errorf :: "env \<Rightarrow> string \<Rightarrow> world \<Rightarrow> unit res \<times> world" where
  "Errorf e v w = Logger_output e (defaultLogger w) sError 0 v w"

definition Logger_Fatal :: "env \<Rightarrow> nat \<Rightarrow> string \<Rightarrow> world \<Rightarrow> unit res \<times> world" where
  "Logger_Fatal e l v w =
     andThen (Logger_output e l sFatal 0 v w) (\<lambda>_ w1.
     andThen (Logger_Close e l w1) (\<lambda>_ w2.
     os_Exit 1 w2))"

definition Logger_FatalDepth :: "env \<Rightarrow> nat \<Rightarrow> int \<Rightarrow> string \<Rightarrow> world \<Rightarrow> unit res \<times> world" where
  "Logger_FatalDepth e l depth v w =
     andThen (Logger_output e l sFatal depth v w) (\<lambda>_ w1.
     andThen (Logger_Close e l w1) (\<lambda>_ w2.
     os_Exit 1 w2))"

definition Logger_Fatalln :: "env \<Rightarrow> nat \<Rightarrow> string \<Rightarrow> world \<Rightarrow> unit res \<times> world" where
  "Logger_Fatalln e l v w =
     andThen (Logger_output e l sFatal 0 (v @ [newline]) w) (\<lambda>_ w1.
     andThen (Logger_Close e l w1) (\<lambda>_ w2.
     os_Exit 1 w2))"

definition Logger_Fatalf :: "env \<Rightarrow> nat \<Rightarrow> string \<Rightarrow> world \<Rightarrow> unit res \<times> world" where
  "Logger_Fatalf e l v w =
     andThen (Logger_output e l sFatal 0 v w) (\<lambda>_ w1.
     andThen (Logger_Close e l w1) (\<lambda>_ w2.
     os_Exit 1 w2))"

definition Fatal :: "env \<Rightarrow> string \<Rightarrow> world \<Rightarrow> unit res \<times> world" where
  "Fatal e v w =
     andThen (Logger_output e (defaultLogger w) sFatal 0 v w) (\<lambda>_ w1.
     andThen (Logger_Close e (defaultLogger w1) w1) (\<lambda>_ w2.
     os_Exit 1 w2))"

definition FatalDepth :: "env \<Rightarrow> int \<Rightarrow> string \<Rightarrow> world \<Rightarrow> unit res \<times> world" where
  "FatalDepth e depth v w =
     andThen (Logger_output e (defaultLogger w) sFatal depth v w) (\<lambda>_ w1.
     andThen (Logger_Close e (defaultLogger w1) w1) (\<lambda>_ w2.
     os_Exit 1 w2))"

definition Fatalln :: "env \<Rightarrow> string \<Rightarrow> world \<Rightarrow> unit res \<times> world" where
  "Fatalln e v w =
     andThen (Logger_output e (defaultLogger w) sFatal 0 (v @ [newline]) w) (\<lambda>_ w1.
     andThen (Logger_Close e (defaultLogger w1) w1) (\<lambda>_ w2.
     os_Exit 1 w2))"

definition Fatalf :: "env \<Rightarrow> string \<Rightarrow> world \<Rightarrow> unit res \<times> world" where
  "Fatalf e v w =
     andThen (Logger_output e (defaultLogger w) sFatal 0 v w) (\<lambda>_ w1.
     andThen (Logger_Close e (defaultLogger w1) w1) (\<lambda>_ w2.
     os_Exit 1 w2))"

definition Logger_SetLevel :: "env \<Rightarrow> nat \<Rightarrow> int \<Rightarrow> world \<Rightarrow> unit res \<times> world" where
  "Logger_SetLevel e l lvl w =
     (case lookup w l of
        None \<Rightarrow> (Panic nil_deref, w)
      | Some lg \<Rightarrow>
          Logger_output e l sInfo 0 (''Info verbosity set to '' @ show_int lvl)
            (w\<lparr>loggers := (loggers w)[l := lg\<lparr>level := lvl\<rparr>]\<rparr>))"

definition SetLevel :: "env \<Rightarrow> int \<Rightarrow> world \<Rightarrow> unit res \<times> world" where
  "SetLevel e lvl w = Logger_SetLevel e (defaultLogger w) lvl w"

definition Logger_Verbosity :: "nat \<Rightarrow> int \<Rightarrow> world \<Rightarrow> Verbose res" where
  "Logger_Verbosity l lvl w =
     (case lookup w l of
        None \<Rightarrow> Panic nil_deref
      | Some lg \<Rightarrow> Return \<lparr>enabled = (level lg \<ge> lvl), logger = l\<rparr>)"

definition Verbosity :: "int \<Rightarrow> world \<Rightarrow> Verbose res" where
  "Verbosity lvl w = Logger_Verbosity (defaultLogger w) lvl w"

definition Verbose_Info :: "env \<Rightarrow> Verbose \<Rightarrow> string \<Rightarrow> world \<Rightarrow> unit res \<times> world" where
  "Verbose_Info e v args w =
     (if enabled v then Logger_output e (logger v) sInfo 0 args w else (Return (), w))"

definition Verbose_Infoln :: "env \<Rightarrow> Verbose \<Rightarrow> string \<Rightarrow> world \<Rightarrow> unit res \<times> world" where
  "Verbose_Infoln e v args w =
     (if enabled v then Logger_output e (logger v) sInfo 0 (args @ [newline]) w else (Return (), w))"

definition Verbose_Infof :: "env \<Rightarrow> Verbose \<Rightarrow> string \<Rightarrow> world \<Rightarrow> unit res \<times> world" where
  "Verbose_Infof e v args w =
     (if enabled v then Logger_output e (logger v) sInfo 0 args w else (Return (), w))"

definition SetFlags :: "int \<Rightarrow> world \<Rightarrow> unit res \<times> world" where
  "SetFlags flag w =
     (case lookup w (defaultLogger w) of
        None \<Rightarrow> (Panic nil_deref, w)
      | Some lg \<Rightarrow>
          (Return (),
           w\<lparr>loggers := (loggers w)[defaultLogger w :=
                lg\<lparr>infoLog := log_SetFlags (infoLog lg) flag,
                   warnLog := log_SetFlags (warnLog lg) flag,
                   errorLog := log_SetFlags (errorLog lg) flag,
                   fatalLog := log_SetFlags (fatalLog lg) flag\<rparr>]\<rparr>))"

text \<open>
  \<open>Init\<close>. The closers are collected by its loop over \<open>logFd, il, wl, el\<close>: a \<open>nil\<close>
  writer fails the type assertion, as does one without a \<open>Close\<close> method. The primary
  destination \<open>logFd\<close> is a writer; that the caller passes \<open>nil\<close> is not modelled.
\<close>

fun collect_closers :: "writer option list \<Rightarrow> writer list \<Rightarrow> writer list" where
  "collect_closers [] cs = cs"
| "collect_closers (None # ws) cs = collect_closers ws cs"
| "collect_closers (Some c # ws) cs =
     collect_closers ws (if is_Closer c then cs @ [c] else cs)"

definition append_if :: "writer list \<Rightarrow> writer option \<Rightarrow> writer list" where
  "append_if ws x = (case x of None \<Rightarrow> ws | Some y \<Rightarrow> ws @ [y])"

text \<open>
  \<open>Init\<close> up to the line \<open>l.initialized = true\<close>: the \<open>Logger\<close> it builds and the
  error of the system-log adapter, if there was one.
\<close>

definition build_Logger ::
  "env \<Rightarrow> string \<Rightarrow> bool \<Rightarrow> bool \<Rightarrow> writer \<Rightarrow> Logger \<times> string option" where
  "build_Logger e name verbose systemLog logFd =
     (case (if systemLog then setup_syslog e name else (None, None, None, None)) of
        (il, wl, el, syslogErr) \<Rightarrow>
     (let iLogs = append_if [logFd] il;
          wLogs = append_if [logFd] wl;
          eLogs = append_if [logFd] el;
          eLogs' = eLogs @ [Stderr];
          iLogs' = (if verbose then iLogs @ [Stdout] else iLogs);
          wLogs' = (if verbose then wLogs @ [Stdout] else wLogs)
      in (\<lparr>infoLog = log_New iLogs' labelInfo flags,
           warnLog = log_New wLogs' labelWarn flags,
           errorLog = log_New eLogs' labelErr flags,
           fatalLog = log_New eLogs' labelFatal flags,
           closers = collect_closers [Some logFd, il, wl, el] [],
           initialized = True, level = 0\<rparr>,
          syslogErr)))"

text \<open>
  \<open>Init\<close>: the new \<open>Logger\<close> is allocated (its address \<open>&l\<close> is the next index), the
  adapter's error is logged through it, and it becomes the default logger when the
  current default is not initialized.
\<close>

definition Init :: "env \<Rightarrow> string \<Rightarrow> bool \<Rightarrow> bool \<Rightarrow> writer \<Rightarrow> world \<Rightarrow> nat res \<times> world" where
  "Init e name verbose systemLog logFd w =
     (case build_Logger e name verbose systemLog logFd of
        (l, syslogErr) \<Rightarrow>
     (let a = length (loggers w);
          w1 = w\<lparr>loggers := loggers w @ [l]\<rparr>
      in andThen
           (case syslogErr of
              Some err \<Rightarrow> Logger_Error e a err w1
            | None \<Rightarrow> (Return (), w1))
           (\<lambda>_ w2.
              case lookup w2 (defaultLogger w2) of
                None \<Rightarrow> (Panic nil_deref, w2)
              | Some d \<Rightarrow>
                  (Return a, if \<not> initialized d then w2\<lparr>defaultLogger := a\<rparr> else w2))))"

section \<open>Runs of the package\<close>

text \<open>
  One call of the package that returns to its caller. Every logging function below
  fatal severity is a call of \<open>Logger_output\<close>; a fatal one ends the process and has
  no successor state.
\<close>

inductive step :: "world \<Rightarrow> world \<Rightarrow> bool" where
  step_Init: "Init e name verbose systemLog logFd w = (Return a, w') \<Longrightarrow> step w w'"
| step_output: "Logger_output e l s depth txt w = (Return u, w') \<Longrightarrow> step w w'"
| step_Close: "Logger_Close e l w = (Return u, w') \<Longrightarrow> step w w'"
| step_SetLevel: "Logger_SetLevel e l lvl w = (Return u, w') \<Longrightarrow> step w w'"
| step_SetFlags: "SetFlags flag w = (Return u, w') \<Longrightarrow> step w w'"

text \<open>
  One call that returns and is not \<open>Init\<close>.
\<close>

inductive other_step :: "world \<Rightarrow> world \<Rightarrow> bool" where
  other_output: "Logger_output e l s depth txt w = (Return u, w') \<Longrightarrow> other_step w w'"
| other_Close: "Logger_Close e l w = (Return u, w') \<Longrightarrow> other_step w w'"
| other_SetLevel: "Logger_SetLevel e l lvl w = (Return u, w') \<Longrightarrow> other_step w w'"
| other_SetFlags: "SetFlags flag w = (Return u, w') \<Longrightarrow> other_step w w'"

text \<open>
  The states a process can be in: the state after package initialisation, and what
  calls of the package and the reset \<open>init_logger\<close> (used by the tests) make of it.
\<close>

inductive reachable :: "world \<Rightarrow> bool" where
  reach_start: "reachable world0"
| reach_reset: "reachable w \<Longrightarrow> reachable (init_logger w)"
| reach_step: "reachable w \<Longrightarrow> step w w' \<Longrightarrow> reachable w'"

text \<open>
  The states that a process can be in when \<open>SetFlags\<close> is never given the flag
  \<open>log.Lmsgprefix\<close>.
\<close>

inductive reachable_plain :: "world \<Rightarrow> bool" where
  plain_start: "reachable_plain world0"
| plain_reset: "reachable_plain w \<Longrightarrow> reachable_plain (init_logger w)"
| plain_Init:
    "reachable_plain w \<Longrightarrow> Init e name verbose systemLog logFd w = (Return a, w') \<Longrightarrow>
     reachable_plain w'"
| plain_output:
    "reachable_plain w \<Longrightarrow> Logger_output e l s depth txt w = (Return u, w') \<Longrightarrow>
     reachable_plain w'"
| plain_Close: "reachable_plain w \<Longrightarrow> Logger_Close e l w = (Return u, w') \<Longrightarrow> reachable_plain w'"
| plain_SetLevel:
    "reachable_plain w \<Longrightarrow> Logger_SetLevel e l lvl w = (Return u, w') \<Longrightarrow> reachable_plain w'"
| plain_SetFlags:
    "reachable_plain w \<Longrightarrow> flag AND Lmsgprefix = 0 \<Longrightarrow> SetFlags flag w = (Return u, w') \<Longrightarrow>
     reachable_plain w'"

text \<open>
  The severity label that \<open>Init\<close> and \<open>init_logger\<close> give the channel of a severity, and
  the channel of a \<open>Logger\<close> that \<open>Logger_output\<close> selects.
\<close>

definition valid_severity :: "int \<Rightarrow> bool" where
  "valid_severity s = (s = sInfo \<or> s = sWarn \<or> s = sError \<or> s = sFatal)"

definition label_of :: "int \<Rightarrow> string" where
  "label_of s =
     (if s = sInfo then labelInfo
      else if s = sWarn then labelWarn
      else if s = sError then labelErr
      else labelFatal)"

definition channel :: "Logger \<Rightarrow> int \<Rightarrow> log_Logger" where
  "channel lg s =
     (if s = sInfo then infoLog lg
      else if s = sWarn then warnLog lg
      else if s = sError then errorLog lg
      else fatalLog lg)"

text \<open>
  The closers that a sequence of events closes, in order; the destinations that it
  writes to, whether the write succeeds or not; and the texts that arrive.
\<close>

fun closed_by :: "event list \<Rightarrow> writer list" where
  "closed_by [] = []"
| "closed_by (CloseCall c # evs) = c # closed_by evs"
| "closed_by (Write d t # evs) = closed_by evs"
| "closed_by (FailedWrite d t # evs) = closed_by evs"

fun attempted :: "event list \<Rightarrow> writer list" where
  "attempted [] = []"
| "attempted (CloseCall c # evs) = attempted evs"
| "attempted (Write d t # evs) = d # attempted evs"
| "attempted (FailedWrite d t # evs) = d # attempted evs"

fun arrived :: "event list \<Rightarrow> (writer \<times> string) list" where
  "arrived [] = []"
| "arrived (CloseCall c # evs) = arrived evs"
| "arrived (Write d t # evs) = (d, t) # arrived evs"
| "arrived (FailedWrite d t # evs) = arrived evs"

section \<open>Invariants of runs\<close>

text \<open>
  What no call changes about a \<open>Logger\<close> once it is built: the prefix and the
  destinations of its four channels, its closers and its initialized flag. A \<open>Logger\<close>
  is either as \<open>init_logger\<close> makes it or as \<open>Init\<close> makes it.
\<close>

definition wiring :: "Logger \<Rightarrow> (string \<times> writer list) list \<times> writer list \<times> bool" where
  "wiring lg =
     ([(logPrefix (infoLog lg), logOut (infoLog lg)),
       (logPrefix (warnLog lg), logOut (warnLog lg)),
       (logPrefix (errorLog lg), logOut (errorLog lg)),
       (logPrefix (fatalLog lg), logOut (fatalLog lg))],
      closers lg, initialized lg)"

definition pristine :: "Logger \<Rightarrow> bool" where
  "pristine lg \<longleftrightarrow>
     wiring lg =
       ([(initText @ labelInfo, [Stderr]), (initText @ labelWarn, [Stderr]),
         (initText @ labelErr, [Stderr]), (initText @ labelFatal, [Stderr])],
        [], False)"

definition wired :: "Logger \<Rightarrow> bool" where
  "wired lg \<longleftrightarrow>
     initialized lg \<and> logPrefix (infoLog lg) = labelInfo \<and> logPrefix (warnLog lg) = labelWarn \<and>
     logPrefix (errorLog lg) = labelErr \<and> logPrefix (fatalLog lg) = labelFatal"

definition plain_flags :: "Logger \<Rightarrow> bool" where
  "plain_flags lg \<longleftrightarrow>
     logFlag (infoLog lg) AND Lmsgprefix = 0 \<and> logFlag (warnLog lg) AND Lmsgprefix = 0 \<and>
     logFlag (errorLog lg) AND Lmsgprefix = 0 \<and> logFlag (fatalLog lg) AND Lmsgprefix = 0"

definition inv :: "world \<Rightarrow> bool" where
  "inv w \<longleftrightarrow>
     defaultLogger w < length (loggers w) \<and>
     (\<forall>a < length (loggers w). pristine (loggers w ! a) \<or> wired (loggers w ! a))"

section \<open>A sample environment\<close>

text \<open>
  The header that package \<open>log\<close> formats at one fixed time and call site, for any
  flags, and an environment around it in which nothing fails.
\<close>

definition sample_header :: "int \<Rightarrow> int \<Rightarrow> string" where
  "sample_header f calldepth =
     (if f AND Ldate \<noteq> 0 then ''2009/11/10 '' else [])
     @ (if f AND (Ltime OR Lmicroseconds) \<noteq> 0
        then (if f AND Lmicroseconds \<noteq> 0 then ''23:00:00.000000 '' else ''23:00:00 '')
        else [])
     @ (if f AND (Lshortfile OR Llongfile) \<noteq> 0
        then (if f AND Lshortfile \<noteq> 0 then ''main.go:12: '' else ''/src/main.go:12: '')
        else [])"

definition sample_env :: env where
  "sample_env =
     \<lparr>header = sample_header, syslogFails = (\<lambda>p t. None),
      closeFails = (\<lambda>c. None), showv = (\<lambda>c. ''&{0xc000012345}''),
      writeFails = (\<lambda>d. False)\<rparr>"

text \<open>The same environment with a system log that cannot be reached.\<close>

definition no_syslog_env :: env where
  "no_syslog_env = sample_env\<lparr>syslogFails := (\<lambda>p t. Some ''Unix syslog delivery error'')\<rparr>"

text \<open>The same environment in which the caller's destination 1 fails every write.\<close>

definition broken_sink_env :: env where
  "broken_sink_env = sample_env\<lparr>writeFails := (\<lambda>d. d = Sink 1 False)\<rparr>"

text \<open>The same environment with closers that report that they are closed already.\<close>

definition closed_env :: env where
  "closed_env = sample_env\<lparr>closeFails := (\<lambda>c. Some ''file already closed'')\<rparr>"

text \<open>
  A sample state: after package initialisation, one call
  \<open>Init("app", false, false, f)\<close> with a file \<open>f\<close> (a destination that can be closed).
\<close>

definition world1 :: world where
  "world1 = snd (Init sample_env ''app'' False False (Sink 1 True) world0)"

section \<open>Basic facts\<close>

lemma multi_Write_ok:
  "\<forall>d \<in> set ds. \<not> writeFails e d \<Longrightarrow> multi_Write e ds p = map (\<lambda>d. Write d p) ds"
  by (induction ds) (simp_all add: write_to_def)

lemma writeFails_sample [simp]:
  "writeFails sample_env d = False"
  by (simp add: sample_env_def)

lemma multi_Write_sample: "multi_Write sample_env ds p = map (\<lambda>d. Write d p) ds"
  by (rule multi_Write_ok) simp

lemma closed_by_multi_Write [simp]: "closed_by (multi_Write e ds p) = []"
  by (induction ds) (simp_all add: write_to_def)

lemma closed_by_append [simp]: "closed_by (xs @ ys) = closed_by xs @ closed_by ys"
  by (induction xs rule: closed_by.induct) simp_all

lemma flags_no_msgprefix: "flags AND Lmsgprefix = 0"
  by (simp add: flags_def Ldate_def Lmicroseconds_def Lshortfile_def Lmsgprefix_def)

lemma lookup_trace [simp]: "lookup (w\<lparr>trace := t\<rparr>) a = lookup w a"
  by (simp add: lookup_def)

lemma lookup_default [simp]: "lookup (w\<lparr>defaultLogger := d\<rparr>) a = lookup w a"
  by (simp add: lookup_def)

lemma lookup_append:
  "lookup (w\<lparr>loggers := loggers w @ [l]\<rparr>) a =
     (if a = length (loggers w) then Some l else lookup w a)"
  by (simp add: lookup_def nth_append)

lemma lookup_update:
  "lookup (w\<lparr>loggers := (loggers w)[b := l]\<rparr>) a =
     (if a = b \<and> b < length (loggers w) then Some l else lookup w a)"
  by (simp add: lookup_def nth_list_update)

lemma lookup_Some_less: "lookup w a = Some lg \<Longrightarrow> a < length (loggers w)"
  by (simp add: lookup_def split: if_splits)

lemma lookup_fresh [simp]: "lookup w (length (loggers w)) = None"
  by (simp add: lookup_def)

lemma output_eq:
  "valid_severity s \<Longrightarrow> lookup w l = Some lg \<Longrightarrow>
   Logger_output e l s depth txt w =
     (Return (), w\<lparr>trace := trace w @ log_Output e (channel lg s) (3 + depth) txt\<rparr>)"
  by (auto simp: Logger_output_def valid_severity_def channel_def)

lemma output_Return:
  assumes "Logger_output e l s depth txt w = (Return u, w')"
  shows "\<exists>lg. valid_severity s \<and> lookup w l = Some lg \<and>
           w' = w\<lparr>trace := trace w @ log_Output e (channel lg s) (3 + depth) txt\<rparr>"
  using assms
  by (auto simp: Logger_output_def valid_severity_def channel_def split: if_splits option.splits)

lemma valid_sev [simp]:
  "valid_severity sInfo" "valid_severity sWarn" "valid_severity sError" "valid_severity sFatal"
  by (simp_all add: valid_severity_def)

lemma sev_distinct [simp]:
  "sInfo \<noteq> sWarn" "sInfo \<noteq> sError" "sInfo \<noteq> sFatal"
  "sWarn \<noteq> sInfo" "sWarn \<noteq> sError" "sWarn \<noteq> sFatal"
  "sError \<noteq> sInfo" "sError \<noteq> sWarn" "sError \<noteq> sFatal"
  "sFatal \<noteq> sInfo" "sFatal \<noteq> sWarn" "sFatal \<noteq> sError"
  by (simp_all add: sInfo_def sWarn_def sError_def sFatal_def)

lemma channel_simps [simp]:
  "channel lg sInfo = infoLog lg" "channel lg sWarn = warnLog lg"
  "channel lg sError = errorLog lg" "channel lg sFatal = fatalLog lg"
  by (simp_all add: channel_def)

lemma label_of_simps [simp]:
  "label_of sInfo = labelInfo" "label_of sWarn = labelWarn"
  "label_of sError = labelErr" "label_of sFatal = labelFatal"
  by (simp_all add: label_of_def)

lemma Close_eq:
  "lookup w l = Some lg \<Longrightarrow>
   Logger_Close e l w =
     (Return (), if initialized lg then w\<lparr>trace := trace w @ close_all e (closers lg)\<rparr> else w)"
  by (simp add: Logger_Close_def)

lemma Init_eq:
  assumes "lookup w (defaultLogger w) = Some d"
    and "build_Logger e name verbose systemLog logFd = (l, serr)"
  shows "Init e name verbose systemLog logFd w =
     (Return (length (loggers w)),
      w\<lparr>loggers := loggers w @ [l],
        defaultLogger := (if initialized d then defaultLogger w else length (loggers w)),
        trace := trace w @ (case serr of None \<Rightarrow> [] | Some err \<Rightarrow> log_Output e (errorLog l) 3 err)\<rparr>)"
proof -
  have neq: "defaultLogger w \<noteq> length (loggers w)"
    using assms(1) by (auto dest: lookup_Some_less)
  show ?thesis
  proof (cases serr)
    case None
    then show ?thesis
      using assms neq by (simp add: Init_def andThen_def lookup_append Let_def)
  next
    case (Some err)
    then show ?thesis
      using assms neq
      by (simp add: Init_def andThen_def lookup_append Let_def Logger_Error_def output_eq [where lg = l])
  qed
qed

lemma wired_wiring: "wiring lg' = wiring lg \<Longrightarrow> wired lg' = wired lg"
  by (auto simp: wiring_def wired_def)

lemma pristine_wiring: "wiring lg' = wiring lg \<Longrightarrow> pristine lg' = pristine lg"
  by (simp add: pristine_def)

lemma build_wired:
  "build_Logger e name verbose systemLog logFd = (l, serr) \<Longrightarrow> wired l"
  by (auto simp: build_Logger_def wired_def log_New_def Let_def split: prod.splits)

lemma build_level:
  "build_Logger e name verbose systemLog logFd = (l, serr) \<Longrightarrow> level l = 0"
  by (auto simp: build_Logger_def Let_def split: prod.splits)

lemma Init_Return:
  assumes "Init e name verbose systemLog logFd w = (Return a, w')"
    and "defaultLogger w < length (loggers w)"
  shows "\<exists>l serr. build_Logger e name verbose systemLog logFd = (l, serr) \<and>
           a = length (loggers w) \<and>
           w' = w\<lparr>loggers := loggers w @ [l],
                  defaultLogger := (if initialized (loggers w ! defaultLogger w)
                                    then defaultLogger w else length (loggers w)),
                  trace := trace w @ (case serr of None \<Rightarrow> []
                                      | Some err \<Rightarrow> log_Output e (errorLog l) 3 err)\<rparr>"
proof -
  obtain l serr where b: "build_Logger e name verbose systemLog logFd = (l, serr)"
    by (cases "build_Logger e name verbose systemLog logFd")
  have d: "lookup w (defaultLogger w) = Some (loggers w ! defaultLogger w)"
    using assms(2) by (simp add: lookup_def)
  from Init_eq [OF d b, of ] assms(1) b show ?thesis by auto
qed

lemma SetLevel_Return:
  assumes "Logger_SetLevel e l lvl w = (Return u, w')"
  shows "\<exists>lg. lookup w l = Some lg \<and>
           w' = w\<lparr>loggers := (loggers w)[l := lg\<lparr>level := lvl\<rparr>],
                  trace := trace w @
                    log_Output e (infoLog lg) 3 (''Info verbosity set to '' @ show_int lvl)\<rparr>"
proof (cases "lookup w l")
  case None
  then show ?thesis using assms by (simp add: Logger_SetLevel_def)
next
  case (Some lg)
  have lt: "l < length (loggers w)" using Some by (rule lookup_Some_less)
  have "lookup (w\<lparr>loggers := (loggers w)[l := lg\<lparr>level := lvl\<rparr>]\<rparr>) l = Some (lg\<lparr>level := lvl\<rparr>)"
    using lt by (simp add: lookup_update)
  from output_eq [OF valid_sev(1) this] assms Some show ?thesis
    by (auto simp: Logger_SetLevel_def)
qed

lemma SetFlags_Return:
  assumes "SetFlags flag w = (Return u, w')"
  shows "\<exists>lg. lookup w (defaultLogger w) = Some lg \<and>
           w' = w\<lparr>loggers := (loggers w)[defaultLogger w :=
                lg\<lparr>infoLog := log_SetFlags (infoLog lg) flag,
                   warnLog := log_SetFlags (warnLog lg) flag,
                   errorLog := log_SetFlags (errorLog lg) flag,
                   fatalLog := log_SetFlags (fatalLog lg) flag\<rparr>]\<rparr>"
  using assms by (auto simp: SetFlags_def split: option.splits)

lemma Close_Return:
  assumes "Logger_Close e l w = (Return u, w')"
  shows "\<exists>lg. lookup w l = Some lg \<and>
           w' = (if initialized lg then w\<lparr>trace := trace w @ close_all e (closers lg)\<rparr> else w)"
  using assms by (auto simp: Logger_Close_def split: option.splits if_splits)

lemma wiring_level [simp]: "wiring (lg\<lparr>level := n\<rparr>) = wiring lg"
  by (simp add: wiring_def)

lemma wiring_SetFlags [simp]:
  "wiring (lg\<lparr>infoLog := log_SetFlags (infoLog lg) f,
              warnLog := log_SetFlags (warnLog lg) f,
              errorLog := log_SetFlags (errorLog lg) f,
              fatalLog := log_SetFlags (fatalLog lg) f\<rparr>) = wiring lg"
  by (simp add: wiring_def log_SetFlags_def)

lemma wiring_update:
  "lookup w l = Some lg \<Longrightarrow> wiring lg' = wiring lg \<Longrightarrow> a < length (loggers w) \<Longrightarrow>
   wiring ((loggers w)[l := lg'] ! a) = wiring (loggers w ! a)"
  by (auto simp: lookup_def nth_list_update split: if_splits)

lemma step_frame:
  assumes "step w w'" and "defaultLogger w < length (loggers w)"
  shows "length (loggers w) \<le> length (loggers w') \<and>
         (\<forall>a < length (loggers w). wiring (loggers w' ! a) = wiring (loggers w ! a)) \<and>
         (\<forall>a. length (loggers w) \<le> a \<longrightarrow> a < length (loggers w') \<longrightarrow> wired (loggers w' ! a)) \<and>
         defaultLogger w' < length (loggers w') \<and>
         (initialized (loggers w ! defaultLogger w) \<longrightarrow> defaultLogger w' = defaultLogger w) \<and>
         (defaultLogger w' = defaultLogger w \<or> defaultLogger w' = length (loggers w))"
  using assms
proof (cases rule: step.cases)
  case (step_Init e name verbose systemLog logFd a)
  from Init_Return [OF step_Init assms(2)] obtain l serr where
    b: "build_Logger e name verbose systemLog logFd = (l, serr)" and
    w': "w' = w\<lparr>loggers := loggers w @ [l],
                  defaultLogger := (if initialized (loggers w ! defaultLogger w)
                                    then defaultLogger w else length (loggers w)),
                  trace := trace w @ (case serr of None \<Rightarrow> []
                                      | Some err \<Rightarrow> log_Output e (errorLog l) 3 err)\<rparr>"
    by blast
  have "wired l" using b by (rule build_wired)
  then show ?thesis using assms(2) by (auto simp: w' nth_append less_Suc_eq)
next
  case (step_output e l s depth msg u)
  from output_Return [OF this] show ?thesis using assms(2) by auto
next
  case (step_Close e l u)
  from Close_Return [OF this] show ?thesis using assms(2) by (auto split: if_splits)
next
  case (step_SetLevel e l lvl u)
  from SetLevel_Return [OF this] obtain lg where
    lg: "lookup w l = Some lg" and
    w': "loggers w' = (loggers w)[l := lg\<lparr>level := lvl\<rparr>]" "defaultLogger w' = defaultLogger w"
    by auto
  show ?thesis
    using assms(2) wiring_update [OF lg wiring_level] by (simp add: w')
next
  case (step_SetFlags flag u)
  from SetFlags_Return [OF this] obtain lg where
    lg: "lookup w (defaultLogger w) = Some lg" and
    w': "loggers w' = (loggers w)[defaultLogger w :=
                lg\<lparr>infoLog := log_SetFlags (infoLog lg) flag,
                   warnLog := log_SetFlags (warnLog lg) flag,
                   errorLog := log_SetFlags (errorLog lg) flag,
                   fatalLog := log_SetFlags (fatalLog lg) flag\<rparr>]" "defaultLogger w' = defaultLogger w"
    by auto
  show ?thesis
    using assms(2) wiring_update [OF lg wiring_SetFlags] by (simp add: w')
qed

lemma step_inv:
  assumes "step w w'" and "inv w"
  shows "inv w'"
proof -
  have d: "defaultLogger w < length (loggers w)" using assms(2) by (simp add: inv_def)
  note f = step_frame [OF assms(1) d]
  have "pristine (loggers w' ! a) \<or> wired (loggers w' ! a)" if a: "a < length (loggers w')" for a
  proof (cases "a < length (loggers w)")
    case True
    with f have eq: "wiring (loggers w' ! a) = wiring (loggers w ! a)" by blast
    have "pristine (loggers w ! a) \<or> wired (loggers w ! a)"
      using assms(2) True by (simp add: inv_def)
    then show ?thesis
      using pristine_wiring [OF eq] wired_wiring [OF eq] by simp
  next
    case False
    with f a have "wired (loggers w' ! a)" by simp
    then show ?thesis ..
  qed
  moreover have "defaultLogger w' < length (loggers w')" using f by blast
  ultimately show ?thesis by (simp add: inv_def)
qed

lemma init_logger_pristine:
  "pristine (loggers (init_logger w) ! length (loggers w))"
  by (simp add: init_logger_def pristine_def wiring_def log_New_def)

lemma init_logger_inv:
  assumes "\<forall>a < length (loggers w). pristine (loggers w ! a) \<or> wired (loggers w ! a)"
  shows "inv (init_logger w)"
proof -
  have "pristine (loggers (init_logger w) ! a) \<or> wired (loggers (init_logger w) ! a)"
    if "a < length (loggers (init_logger w))" for a
  proof (cases "a < length (loggers w)")
    case True
    then have "loggers (init_logger w) ! a = loggers w ! a"
      by (simp add: init_logger_def nth_append)
    with assms True show ?thesis by simp
  next
    case False
    with that have "a = length (loggers w)" by (simp add: init_logger_def)
    then show ?thesis using init_logger_pristine by simp
  qed
  then show ?thesis by (simp add: inv_def init_logger_def)
qed

lemma reachable_inv: "reachable w \<Longrightarrow> inv w"
proof (induction rule: reachable.induct)
  case reach_start
  show ?case unfolding world0_def by (rule init_logger_inv) simp
next
  case (reach_reset w)
  then show ?case by (intro init_logger_inv) (simp add: inv_def)
next
  case (reach_step w w')
  then show ?case by (blast intro: step_inv)
qed

lemma wiring_initialized: "wiring lg' = wiring lg \<Longrightarrow> initialized lg' = initialized lg"
  by (simp add: wiring_def)

lemma steps_frame:
  assumes "step\<^sup>*\<^sup>* w w'" and "inv w"
  shows "inv w' \<and> length (loggers w) \<le> length (loggers w') \<and>
         (\<forall>a < length (loggers w). wiring (loggers w' ! a) = wiring (loggers w ! a)) \<and>
         (initialized (loggers w ! defaultLogger w) \<longrightarrow> defaultLogger w' = defaultLogger w)"
  using assms
proof (induction rule: rtranclp_induct)
  case base
  then show ?case by simp
next
  case (step y z)
  then have IH: "inv y" "length (loggers w) \<le> length (loggers y)"
    "\<forall>a < length (loggers w). wiring (loggers y ! a) = wiring (loggers w ! a)"
    "initialized (loggers w ! defaultLogger w) \<longrightarrow> defaultLogger y = defaultLogger w"
    by simp_all
  have dy: "defaultLogger y < length (loggers y)" using IH(1) by (simp add: inv_def)
  have dw: "defaultLogger w < length (loggers w)" using step.prems by (simp add: inv_def)
  note f = step_frame [OF step.hyps(2) dy]
  have 1: "inv z" using step.hyps(2) IH(1) by (rule step_inv)
  have 2: "length (loggers w) \<le> length (loggers z)" using f IH(2) by linarith
  have 3: "wiring (loggers z ! a) = wiring (loggers w ! a)" if "a < length (loggers w)" for a
  proof -
    have "a < length (loggers y)" using that IH(2) by linarith
    with f have "wiring (loggers z ! a) = wiring (loggers y ! a)" by blast
    with IH(3) that show ?thesis by simp
  qed
  have 4: "defaultLogger z = defaultLogger w" if i: "initialized (loggers w ! defaultLogger w)"
  proof -
    have e: "defaultLogger y = defaultLogger w" using IH(4) i by simp
    have "wiring (loggers y ! defaultLogger w) = wiring (loggers w ! defaultLogger w)"
      using IH(3) dw by simp
    then have "initialized (loggers y ! defaultLogger w) = initialized (loggers w ! defaultLogger w)"
      by (rule wiring_initialized)
    with i e have "initialized (loggers y ! defaultLogger y)" by simp
    with f e show ?thesis by simp
  qed
  from 1 2 3 4 show ?case by blast
qed

lemma closed_by_close_all: "closed_by (close_all e cs) = cs"
  by (induction cs) (auto simp: write_to_def split: option.splits)

lemma lookup_world0: "lookup world0 0 = Some (loggers world0 ! 0)"
  by (simp add: lookup_def world0_def init_logger_def)

section \<open>Facts about construction, runs and the sample states\<close>

lemma setup_cases:
  "setup_syslog e src =
     (Some (Syslog (LOG_USER OR LOG_NOTICE) src), Some (Syslog (LOG_USER OR LOG_WARNING) src),
      Some (Syslog (LOG_USER OR LOG_ERR) src), None) \<or>
   (\<exists>err. setup_syslog e src = (None, None, None, Some err))"
  by (auto simp: setup_syslog_def syslog_New_def split: option.splits)

lemma build_ok:
  assumes "setup_syslog e name = (Some il, Some wl, Some el, None)"
  shows "build_Logger e name verbose True logFd =
     (\<lparr>infoLog = log_New ([logFd, il] @ (if verbose then [Stdout] else [])) labelInfo flags,
       warnLog = log_New ([logFd, wl] @ (if verbose then [Stdout] else [])) labelWarn flags,
       errorLog = log_New [logFd, el, Stderr] labelErr flags,
       fatalLog = log_New [logFd, el, Stderr] labelFatal flags,
       closers = (if is_Closer logFd then [logFd] else []) @ filter is_Closer [il, wl, el],
       initialized = True, level = 0\<rparr>, None)"
  using assms by (simp add: build_Logger_def append_if_def Let_def)

lemma build_plain:
  assumes "systemLog \<longrightarrow> setup_syslog e name = (None, None, None, serr)"
    and "\<not> systemLog \<longrightarrow> serr = None"
  shows "build_Logger e name verbose systemLog logFd =
     (\<lparr>infoLog = log_New ([logFd] @ (if verbose then [Stdout] else [])) labelInfo flags,
       warnLog = log_New ([logFd] @ (if verbose then [Stdout] else [])) labelWarn flags,
       errorLog = log_New [logFd, Stderr] labelErr flags,
       fatalLog = log_New [logFd, Stderr] labelFatal flags,
       closers = (if is_Closer logFd then [logFd] else []),
       initialized = True, level = 0\<rparr>, serr)"
  using assms by (cases systemLog) (simp_all add: build_Logger_def append_if_def Let_def)

lemma level_world0: "level (loggers world0 ! 0) = 0"
  by (simp add: world0_def init_logger_def)

lemma default_world0: "defaultLogger world0 = 0" "length (loggers world0) = 1"
  by (simp_all add: world0_def init_logger_def)

lemma lookup_default_world0: "lookup world0 (defaultLogger world0) = Some (loggers world0 ! 0)"
  by (simp add: default_world0 lookup_world0)

lemma setup_sample: "setup_syslog sample_env name =
  (Some (Syslog 13 name), Some (Syslog 12 name), Some (Syslog 11 name), None)"
  by (simp add: setup_syslog_def syslog_New_def sample_env_def LOG_USER_def LOG_NOTICE_def
      LOG_WARNING_def LOG_ERR_def)

lemma setup_no_syslog: "setup_syslog no_syslog_env name =
  (None, None, None, Some ''Unix syslog delivery error'')"
  by (simp add: setup_syslog_def syslog_New_def no_syslog_env_def sample_env_def)

lemma sample_header_flags: "sample_header flags d = ''2009/11/10 23:00:00.000000 main.go:12: ''"
  by (simp add: sample_header_def flags_def Ldate_def Ltime_def Lmicroseconds_def
      Lshortfile_def Llongfile_def)

lemma wired_initialized: "wired l \<Longrightarrow> initialized l"
  by (simp add: wired_def)

lemma reachable_Init:
  assumes "reachable w"
  shows "reachable (snd (Init e name verbose systemLog logFd w))"
proof -
  have "inv w" using assms by (rule reachable_inv)
  then have "lookup w (defaultLogger w) = Some (loggers w ! defaultLogger w)"
    by (simp add: inv_def lookup_def)
  from Init_eq [OF this, of e name verbose systemLog logFd]
  have "Init e name verbose systemLog logFd w =
     (Return (length (loggers w)), snd (Init e name verbose systemLog logFd w))"
    by (cases "build_Logger e name verbose systemLog logFd") simp
  then have "step w (snd (Init e name verbose systemLog logFd w))" by (rule step_Init)
  with assms show ?thesis by (rule reach_step)
qed

lemma Init_plain:
  assumes "lookup w (defaultLogger w) = Some d"
  shows "Init e name verbose False logFd w =
     (Return (length (loggers w)),
      w\<lparr>loggers := loggers w @
         [\<lparr>infoLog = log_New ([logFd] @ (if verbose then [Stdout] else [])) labelInfo flags,
           warnLog = log_New ([logFd] @ (if verbose then [Stdout] else [])) labelWarn flags,
           errorLog = log_New [logFd, Stderr] labelErr flags,
           fatalLog = log_New [logFd, Stderr] labelFatal flags,
           closers = (if is_Closer logFd then [logFd] else []),
           initialized = True, level = 0\<rparr>],
        defaultLogger := (if initialized d then defaultLogger w else length (loggers w)),
        trace := trace w\<rparr>)"
proof -
  have b: "build_Logger e name verbose False logFd =
     (\<lparr>infoLog = log_New ([logFd] @ (if verbose then [Stdout] else [])) labelInfo flags,
       warnLog = log_New ([logFd] @ (if verbose then [Stdout] else [])) labelWarn flags,
       errorLog = log_New [logFd, Stderr] labelErr flags,
       fatalLog = log_New [logFd, Stderr] labelFatal flags,
       closers = (if is_Closer logFd then [logFd] else []),
       initialized = True, level = 0\<rparr>, None)"
    by (rule build_plain) simp_all
  show ?thesis using Init_eq [OF assms b] by simp
qed

lemma not_initialized_world0: "\<not> initialized (loggers world0 ! 0)"
  by (simp add: world0_def init_logger_def)

lemma trace_world0: "trace world0 = []"
  by (simp add: world0_def init_logger_def)

lemma Init_plain_world0:
  "Init e name verbose False logFd world0 =
     (Return 1,
      world0\<lparr>loggers := loggers world0 @
         [\<lparr>infoLog = log_New ([logFd] @ (if verbose then [Stdout] else [])) labelInfo flags,
           warnLog = log_New ([logFd] @ (if verbose then [Stdout] else [])) labelWarn flags,
           errorLog = log_New [logFd, Stderr] labelErr flags,
           fatalLog = log_New [logFd, Stderr] labelFatal flags,
           closers = (if is_Closer logFd then [logFd] else []),
           initialized = True, level = 0\<rparr>],
        defaultLogger := 1, trace := []\<rparr>)"
  using Init_plain [OF lookup_default_world0, of e name verbose logFd]
  by (simp add: default_world0 not_initialized_world0 trace_world0)

lemma inv_closers:
  assumes "inv w" and "lookup w l = Some lg"
  shows "initialized lg \<or> closers lg = []"
proof -
  have "l < length (loggers w)" "lg = loggers w ! l"
    using assms(2) by (auto simp: lookup_def split: if_splits)
  with assms(1) have "pristine lg \<or> wired lg" by (simp add: inv_def)
  then show ?thesis by (auto simp: pristine_def wiring_def wired_def)
qed

lemma Close_inv:
  assumes "inv w" and "lookup w l = Some lg"
  shows "Logger_Close e l (w\<lparr>trace := t\<rparr>) =
           (Return (), w\<lparr>trace := t @ close_all e (closers lg)\<rparr>)"
proof -
  have lk: "lookup (w\<lparr>trace := t\<rparr>) l = Some lg" using assms(2) by simp
  from inv_closers [OF assms] show ?thesis
    by (cases "initialized lg") (auto simp: Close_eq [OF lk])
qed

lemma fatal_seq:
  assumes "inv w" and "lookup w l = Some lg"
  shows "andThen (Logger_output e l sFatal depth v w) (\<lambda>_ w1.
         andThen (Logger_Close e l w1) (\<lambda>_ w2. os_Exit 1 w2)) =
       (Exit 1, w\<lparr>trace := trace w @
          multi_Write e (logOut (fatalLog lg)) (log_line e (fatalLog lg) (3 + depth) v) @
          close_all e (closers lg)\<rparr>)"
  using output_eq [OF valid_sev(4) assms(2), of e depth v] Close_inv [OF assms]
  by (simp add: andThen_def os_Exit_def log_Output_def)

lemma world1_eq:
  "world1 =
     world0\<lparr>loggers := loggers world0 @
         [\<lparr>infoLog = log_New [Sink 1 True] labelInfo flags,
           warnLog = log_New [Sink 1 True] labelWarn flags,
           errorLog = log_New [Sink 1 True, Stderr] labelErr flags,
           fatalLog = log_New [Sink 1 True, Stderr] labelFatal flags,
           closers = [Sink 1 True],
           initialized = True, level = 0\<rparr>],
        defaultLogger := 1, trace := []\<rparr>"
  by (simp add: world1_def Init_plain_world0)

lemma reachable_world1: "reachable world1"
  unfolding world1_def by (rule reachable_Init [OF reach_start])

lemma lookup_world1: "lookup world1 1 = Some (loggers world1 ! 1)"
  by (simp add: lookup_def world1_eq default_world0)

lemma logger_world1:
  "loggers world1 ! Suc 0 =
     \<lparr>infoLog = log_New [Sink 1 True] labelInfo flags,
      warnLog = log_New [Sink 1 True] labelWarn flags,
      errorLog = log_New [Sink 1 True, Stderr] labelErr flags,
      fatalLog = log_New [Sink 1 True, Stderr] labelFatal flags,
      closers = [Sink 1 True],
      initialized = True, level = 0\<rparr>"
  by (simp add: world1_eq nth_append default_world0)

lemma trace_world1: "trace world1 = []" "defaultLogger world1 = 1"
  by (simp_all add: world1_eq)

text \<open>
  \<open>Close\<close> does not clear the initialized flag or the list of closers. On an initialized
  \<open>Logger\<close> a second \<open>Close\<close> therefore runs the loop over the closers again.
\<close>

lemma Close_initialized_repeats:
  assumes "lookup w l = Some lg" and "initialized lg"
  shows "Logger_Close e2 l (snd (Logger_Close e l w)) =
           (Return (), w\<lparr>trace := trace w @ close_all e (closers lg) @ close_all e2 (closers lg)\<rparr>)"
proof -
  have 1: "Logger_Close e l w = (Return (), w\<lparr>trace := trace w @ close_all e (closers lg)\<rparr>)"
    using assms by (simp add: Close_eq)
  have "lookup (w\<lparr>trace := trace w @ close_all e (closers lg)\<rparr>) l = Some lg"
    using assms(1) by simp
  from Close_eq [OF this, of e2] assms(2) 1 show ?thesis by simp
qed

lemma build_Logger_level: "level (fst (build_Logger e name verbose systemLog logFd)) = 0"
  by (cases "build_Logger e name verbose systemLog logFd") (simp add: build_level)

lemma wiring_channel:
  assumes "wiring a = wiring b" and "valid_severity s"
  shows "logOut (channel a s) = logOut (channel b s)"
    and "logPrefix (channel a s) = logPrefix (channel b s)"
  using assms by (auto simp: wiring_def valid_severity_def)

lemma build_info_warn_dests:
  assumes "build_Logger e name verbose systemLog logFd = (l, serr)"
    and "s = sInfo \<or> s = sWarn"
  shows "\<exists>sys. (sys = [] \<or> (\<exists>p. sys = [Syslog p name])) \<and>
           logOut (channel l s) = [logFd] @ sys @ (if verbose then [Stdout] else [])"
proof (cases "systemLog \<and> setup_syslog e name =
     (Some (Syslog (LOG_USER OR LOG_NOTICE) name), Some (Syslog (LOG_USER OR LOG_WARNING) name),
      Some (Syslog (LOG_USER OR LOG_ERR) name), None)")
  case True
  then have "systemLog" and ok: "setup_syslog e name =
     (Some (Syslog (LOG_USER OR LOG_NOTICE) name), Some (Syslog (LOG_USER OR LOG_WARNING) name),
      Some (Syslog (LOG_USER OR LOG_ERR) name), None)" by simp_all
  with build_ok [OF ok, of verbose logFd] assms(1)
  have "logOut (infoLog l) = [logFd] @ [Syslog (LOG_USER OR LOG_NOTICE) name] @
            (if verbose then [Stdout] else [])"
    "logOut (warnLog l) = [logFd] @ [Syslog (LOG_USER OR LOG_WARNING) name] @
            (if verbose then [Stdout] else [])"
    by (auto simp: log_New_def)
  with assms(2) show ?thesis by auto
next
  case False
  then obtain err where "systemLog \<longrightarrow> setup_syslog e name = (None, None, None, err)"
    using setup_cases [of e name] by auto
  then have "fst (build_Logger e name verbose systemLog logFd) =
     \<lparr>infoLog = log_New ([logFd] @ (if verbose then [Stdout] else [])) labelInfo flags,
       warnLog = log_New ([logFd] @ (if verbose then [Stdout] else [])) labelWarn flags,
       errorLog = log_New [logFd, Stderr] labelErr flags,
       fatalLog = log_New [logFd, Stderr] labelFatal flags,
       closers = (if is_Closer logFd then [logFd] else []),
       initialized = True, level = 0\<rparr>"
    using build_plain [of systemLog e name "if systemLog then err else None" verbose logFd]
    by simp
  with assms(1) have "logOut (infoLog l) = [logFd] @ [] @ (if verbose then [Stdout] else [])"
    "logOut (warnLog l) = [logFd] @ [] @ (if verbose then [Stdout] else [])"
    by (auto simp: log_New_def)
  with assms(2) show ?thesis by auto
qed

lemma steps_logger:
  assumes "reachable w" and "Init e name verbose systemLog logFd w = (r, w1)"
    and "step\<^sup>*\<^sup>* w1 w2"
  shows "r = Return (length (loggers w)) \<and>
         lookup w2 (length (loggers w)) = Some (loggers w2 ! length (loggers w)) \<and>
         wiring (loggers w2 ! length (loggers w)) =
           wiring (fst (build_Logger e name verbose systemLog logFd))"
proof -
  have iw: "inv w" using assms(1) by (rule reachable_inv)
  then have d: "lookup w (defaultLogger w) = Some (loggers w ! defaultLogger w)"
    by (simp add: inv_def lookup_def)
  define l where "l = fst (build_Logger e name verbose systemLog logFd)"
  define serr where "serr = snd (build_Logger e name verbose systemLog logFd)"
  have b: "build_Logger e name verbose systemLog logFd = (l, serr)"
    by (simp add: l_def serr_def)
  note i = Init_eq [OF d b]
  have r: "r = Return (length (loggers w))" using i assms(2) by simp
  have lw1: "loggers w1 = loggers w @ [l]" using i assms(2) by auto
  have "step w w1" using assms(2) r by (auto intro: step_Init)
  then have "inv w1" using iw by (rule step_inv)
  note f = steps_frame [OF assms(3) this]
  have lt: "length (loggers w) < length (loggers w1)" by (simp add: lw1)
  with f have lt2: "length (loggers w) < length (loggers w2)" by linarith
  from f lt have "wiring (loggers w2 ! length (loggers w)) = wiring (loggers w1 ! length (loggers w))"
    by blast
  then have "wiring (loggers w2 ! length (loggers w)) = wiring l" by (simp add: lw1)
  with r lt2 show ?thesis by (simp add: lookup_def l_def)
qed

lemma Init_world0_lookup:
  "lookup (snd (Init e name verbose False logFd world0)) 1 =
     Some \<lparr>infoLog = log_New ([logFd] @ (if verbose then [Stdout] else [])) labelInfo flags,
           warnLog = log_New ([logFd] @ (if verbose then [Stdout] else [])) labelWarn flags,
           errorLog = log_New [logFd, Stderr] labelErr flags,
           fatalLog = log_New [logFd, Stderr] labelFatal flags,
           closers = (if is_Closer logFd then [logFd] else []),
           initialized = True, level = 0\<rparr>"
  "trace (snd (Init e name verbose False logFd world0)) = []"
  "defaultLogger (snd (Init e name verbose False logFd world0)) = 1"
  by (simp_all add: Init_plain_world0 lookup_def default_world0 nth_append)

lemma info_line_sample:
  "log_line sample_env (log_New ws labelInfo flags) 3 ''x'' =
     ''[INFO]: 2009/11/10 23:00:00.000000 main.go:12: x'' @ [newline]"
  by (simp add: log_line_def log_New_def flags_no_msgprefix sample_env_def sample_header_flags
      labelInfo_def newline_def)

lemma other_step_step: "other_step w w' \<Longrightarrow> step w w'"
  by (auto elim!: other_step.cases intro: step.intros)

lemma other_step_default:
  assumes "other_step w w'"
  shows "defaultLogger w' = defaultLogger w"
  using assms
proof (cases rule: other_step.cases)
  case (other_output e l s depth msg u)
  from output_Return [OF this] show ?thesis by auto
next
  case (other_Close e l u)
  from Close_Return [OF this] show ?thesis by (auto split: if_splits)
next
  case (other_SetLevel e l lvl u)
  from SetLevel_Return [OF this] show ?thesis by auto
next
  case (other_SetFlags flag u)
  from SetFlags_Return [OF this] show ?thesis by auto
qed

lemma other_steps_default:
  assumes "other_step\<^sup>*\<^sup>* w w'"
  shows "defaultLogger w' = defaultLogger w \<and> step\<^sup>*\<^sup>* w w'"
  using assms
proof (induction rule: rtranclp_induct)
  case base
  show ?case by simp
next
  case (step y z)
  from other_step_default [OF step.hyps(2)] other_step_step [OF step.hyps(2)] step.IH
  show ?case by (auto intro: rtranclp.rtrancl_into_rtrancl)
qed

lemma before_Init_uninitialized:
  assumes "reachable w0" and "other_step\<^sup>*\<^sup>* (init_logger w0) w"
  shows "lookup w (defaultLogger w) = Some (loggers w ! defaultLogger w) \<and>
         \<not> initialized (loggers w ! defaultLogger w)"
proof -
  have r: "reachable (init_logger w0)" using assms(1) by (rule reach_reset)
  then have i: "inv (init_logger w0)" by (rule reachable_inv)
  from other_steps_default [OF assms(2)]
  have d: "defaultLogger w = defaultLogger (init_logger w0)" and
    s: "step\<^sup>*\<^sup>* (init_logger w0) w" by simp_all
  note f = steps_frame [OF s i]
  have dl: "defaultLogger (init_logger w0) < length (loggers (init_logger w0))"
    using i by (simp add: inv_def)
  with f have "wiring (loggers w ! defaultLogger (init_logger w0)) =
      wiring (loggers (init_logger w0) ! defaultLogger (init_logger w0))" by blast
  then have "initialized (loggers w ! defaultLogger w) =
      initialized (loggers (init_logger w0) ! defaultLogger (init_logger w0))"
    unfolding d by (rule wiring_initialized)
  moreover have "\<not> initialized (loggers (init_logger w0) ! defaultLogger (init_logger w0))"
    by (simp add: init_logger_def)
  moreover have "defaultLogger w < length (loggers w)" using f by (simp add: inv_def)
  ultimately show ?thesis by (simp add: lookup_def)
qed

lemma inv_channel:
  assumes "inv w" and "lookup w l = Some lg" and "valid_severity s"
  shows "(initialized lg \<longrightarrow> logPrefix (channel lg s) = label_of s) \<and>
         (\<not> initialized lg \<longrightarrow>
            logPrefix (channel lg s) = initText @ label_of s \<and> logOut (channel lg s) = [Stderr])"
proof -
  have "l < length (loggers w)" "lg = loggers w ! l"
    using assms(2) by (auto simp: lookup_def split: if_splits)
  with assms(1) have "pristine lg \<or> wired lg" by (simp add: inv_def)
  then show ?thesis
    using assms(3) by (auto simp: pristine_def wiring_def wired_def valid_severity_def)
qed

lemma label_of_set:
  "label_of s \<in> {''[INFO]: '', ''[WARN]: '', ''[ERROR]: '', ''[FATAL]: ''}"
  by (simp add: label_of_def labelInfo_def labelWarn_def labelErr_def labelFatal_def)

lemma log_line_prefix:
  "logFlag c AND Lmsgprefix = 0 \<Longrightarrow> prefix (logPrefix c) (log_line e c cd msg)"
  by (simp add: log_line_def)

lemma log_line_contains:
  "\<exists>h rest. log_line e c cd msg = h @ logPrefix c @ rest"
proof (cases "logFlag c AND Lmsgprefix = 0")
  case True
  then have "log_line e c cd msg = [] @ logPrefix c @
      (header e (logFlag c) cd @ msg @ (if msg = [] \<or> last msg \<noteq> newline then [newline] else []))"
    by (simp add: log_line_def)
  then show ?thesis by blast
next
  case False
  then have "log_line e c cd msg = header e (logFlag c) cd @ logPrefix c @
      (msg @ (if msg = [] \<or> last msg \<noteq> newline then [newline] else []))"
    by (simp add: log_line_def)
  then show ?thesis by blast
qed


lemma SetFlags_world1:
  "SetFlags f world1 =
     (Return (),
      world1\<lparr>loggers := (loggers world1)[Suc 0 :=
         \<lparr>infoLog = log_New [Sink 1 True] labelInfo f,
          warnLog = log_New [Sink 1 True] labelWarn f,
          errorLog = log_New [Sink 1 True, Stderr] labelErr f,
          fatalLog = log_New [Sink 1 True, Stderr] labelFatal f,
          closers = [Sink 1 True],
          initialized = True, level = 0\<rparr>]\<rparr>)"
  using lookup_world1
  by (simp add: SetFlags_def trace_world1 logger_world1 log_SetFlags_def log_New_def)

lemma build_channels:
  assumes "build_Logger e name verbose systemLog logFd = (l, serr)" and "valid_severity s"
  shows "logPrefix (channel l s) = label_of s \<and> logFlag (channel l s) = flags \<and>
         (\<exists>sys. (sys = [] \<or> (\<exists>p. sys = [Syslog p name])) \<and>
            logOut (channel l s) =
              [logFd] @ sys @
              (if s = sInfo \<or> s = sWarn then (if verbose then [Stdout] else []) else [Stderr]))"
proof (cases "systemLog \<and> setup_syslog e name =
     (Some (Syslog (LOG_USER OR LOG_NOTICE) name), Some (Syslog (LOG_USER OR LOG_WARNING) name),
      Some (Syslog (LOG_USER OR LOG_ERR) name), None)")
  case True
  then have ok: "setup_syslog e name =
     (Some (Syslog (LOG_USER OR LOG_NOTICE) name), Some (Syslog (LOG_USER OR LOG_WARNING) name),
      Some (Syslog (LOG_USER OR LOG_ERR) name), None)" and sl: systemLog by simp_all
  from build_ok [OF ok, of verbose logFd] assms(1) sl
  have l: "l = \<lparr>infoLog = log_New ([logFd, Syslog (LOG_USER OR LOG_NOTICE) name] @
                      (if verbose then [Stdout] else [])) labelInfo flags,
       warnLog = log_New ([logFd, Syslog (LOG_USER OR LOG_WARNING) name] @
                      (if verbose then [Stdout] else [])) labelWarn flags,
       errorLog = log_New [logFd, Syslog (LOG_USER OR LOG_ERR) name, Stderr] labelErr flags,
       fatalLog = log_New [logFd, Syslog (LOG_USER OR LOG_ERR) name, Stderr] labelFatal flags,
       closers = (if is_Closer logFd then [logFd] else []) @
          filter is_Closer [Syslog (LOG_USER OR LOG_NOTICE) name,
            Syslog (LOG_USER OR LOG_WARNING) name, Syslog (LOG_USER OR LOG_ERR) name],
       initialized = True, level = 0\<rparr>"
    by simp
  from assms(2) consider "s = sInfo" | "s = sWarn" | "s = sError" | "s = sFatal"
    by (auto simp: valid_severity_def)
  then show ?thesis
  proof cases
    case 1
    have "logOut (channel l s) = [logFd] @ [Syslog (LOG_USER OR LOG_NOTICE) name] @
        (if s = sInfo \<or> s = sWarn then (if verbose then [Stdout] else []) else [Stderr])"
      by (simp add: 1 l log_New_def)
    then show ?thesis by (auto simp: 1 l log_New_def)
  next
    case 2
    have "logOut (channel l s) = [logFd] @ [Syslog (LOG_USER OR LOG_WARNING) name] @
        (if s = sInfo \<or> s = sWarn then (if verbose then [Stdout] else []) else [Stderr])"
      by (simp add: 2 l log_New_def)
    then show ?thesis by (auto simp: 2 l log_New_def)
  next
    case 3
    have "logOut (channel l s) = [logFd] @ [Syslog (LOG_USER OR LOG_ERR) name] @
        (if s = sInfo \<or> s = sWarn then (if verbose then [Stdout] else []) else [Stderr])"
      by (simp add: 3 l log_New_def)
    then show ?thesis by (auto simp: 3 l log_New_def)
  next
    case 4
    have "logOut (channel l s) = [logFd] @ [Syslog (LOG_USER OR LOG_ERR) name] @
        (if s = sInfo \<or> s = sWarn then (if verbose then [Stdout] else []) else [Stderr])"
      by (simp add: 4 l log_New_def)
    then show ?thesis by (auto simp: 4 l log_New_def)
  qed
next
  case False
  then obtain err where "systemLog \<longrightarrow> setup_syslog e name = (None, None, None, err)"
    using setup_cases [of e name] by auto
  then have "fst (build_Logger e name verbose systemLog logFd) =
     \<lparr>infoLog = log_New ([logFd] @ (if verbose then [Stdout] else [])) labelInfo flags,
       warnLog = log_New ([logFd] @ (if verbose then [Stdout] else [])) labelWarn flags,
       errorLog = log_New [logFd, Stderr] labelErr flags,
       fatalLog = log_New [logFd, Stderr] labelFatal flags,
       closers = (if is_Closer logFd then [logFd] else []),
       initialized = True, level = 0\<rparr>"
    using build_plain [of systemLog e name "if systemLog then err else None" verbose logFd]
    by simp
  with assms(1) have l: "l =
     \<lparr>infoLog = log_New ([logFd] @ (if verbose then [Stdout] else [])) labelInfo flags,
       warnLog = log_New ([logFd] @ (if verbose then [Stdout] else [])) labelWarn flags,
       errorLog = log_New [logFd, Stderr] labelErr flags,
       fatalLog = log_New [logFd, Stderr] labelFatal flags,
       closers = (if is_Closer logFd then [logFd] else []),
       initialized = True, level = 0\<rparr>" by simp
  have "logOut (channel l s) = [logFd] @ [] @
        (if s = sInfo \<or> s = sWarn then (if verbose then [Stdout] else []) else [Stderr])"
    using assms(2) by (auto simp: valid_severity_def l log_New_def)
  moreover have "logPrefix (channel l s) = label_of s \<and> logFlag (channel l s) = flags"
    using assms(2) by (auto simp: valid_severity_def l log_New_def)
  ultimately show ?thesis by blast
qed

lemma build_closers:
  assumes "build_Logger e name verbose systemLog logFd = (l, serr)"
  shows "\<exists>sysc. (sysc = [] \<or>
            sysc = [Syslog (LOG_USER OR LOG_NOTICE) name, Syslog (LOG_USER OR LOG_WARNING) name,
                    Syslog (LOG_USER OR LOG_ERR) name]) \<and>
         closers l = (if is_Closer logFd then [logFd] else []) @ sysc"
proof (cases "systemLog \<and> setup_syslog e name =
     (Some (Syslog (LOG_USER OR LOG_NOTICE) name), Some (Syslog (LOG_USER OR LOG_WARNING) name),
      Some (Syslog (LOG_USER OR LOG_ERR) name), None)")
  case True
  then have ok: "setup_syslog e name =
     (Some (Syslog (LOG_USER OR LOG_NOTICE) name), Some (Syslog (LOG_USER OR LOG_WARNING) name),
      Some (Syslog (LOG_USER OR LOG_ERR) name), None)" and sl: systemLog by simp_all
  from build_ok [OF ok, of verbose logFd] assms sl
  have "closers l = (if is_Closer logFd then [logFd] else []) @
      [Syslog (LOG_USER OR LOG_NOTICE) name, Syslog (LOG_USER OR LOG_WARNING) name,
       Syslog (LOG_USER OR LOG_ERR) name]"
    by auto
  then show ?thesis by blast
next
  case False
  then obtain err where "systemLog \<longrightarrow> setup_syslog e name = (None, None, None, err)"
    using setup_cases [of e name] by auto
  then have "closers (fst (build_Logger e name verbose systemLog logFd)) =
      (if is_Closer logFd then [logFd] else []) @ []"
    using build_plain [of systemLog e name "if systemLog then err else None" verbose logFd]
    by simp
  with assms show ?thesis by auto
qed

lemma log_line_labelled:
  assumes "logPrefix c = p" and "logFlag c = flags"
  shows "log_line e c cd msg =
     p @ header e flags cd @ msg @ (if msg = [] \<or> last msg \<noteq> newline then [newline] else [])"
  using assms by (simp add: log_line_def flags_no_msgprefix)

lemma wiring_closers: "wiring a = wiring b \<Longrightarrow> closers a = closers b"
  by (simp add: wiring_def)

lemma header_sample [simp]: "header sample_env = sample_header"
  by (simp add: sample_env_def)

lemma length_Init_world0:
  "length (loggers (snd (Init e name verbose False logFd world0))) = 2"
  by (simp add: Init_plain_world0 default_world0)

lemma attempted_multi_Write: "set (attempted (multi_Write e ds p)) \<subseteq> set ds"
  by (induction ds) (auto simp: write_to_def)

lemma multi_Write_append_ok:
  "\<forall>d \<in> set ds1. \<not> writeFails e d \<Longrightarrow>
   multi_Write e (ds1 @ ds2) p = map (\<lambda>d. Write d p) ds1 @ multi_Write e ds2 p"
  by (induction ds1) (simp_all add: write_to_def)

lemma multi_Write_fail_first:
  "writeFails e d \<Longrightarrow> multi_Write e (d # ds) p = [FailedWrite d p]"
  by (simp add: write_to_def)

lemma attempted_append [simp]: "attempted (xs @ ys) = attempted xs @ attempted ys"
  by (induction xs rule: attempted.induct) simp_all

lemma arrived_append [simp]: "arrived (xs @ ys) = arrived xs @ arrived ys"
  by (induction xs rule: arrived.induct) simp_all

lemma attempted_map_Write [simp]: "attempted (map (\<lambda>d. Write d p) ds) = ds"
  by (induction ds) simp_all

lemma arrived_map_Write [simp]: "arrived (map (\<lambda>d. Write d p) ds) = map (\<lambda>d. (d, p)) ds"
  by (induction ds) simp_all

lemma broken_sink_env_simps [simp]:
  "header broken_sink_env = sample_header"
  "writeFails broken_sink_env d = (d = Sink 1 False)"
  by (simp_all add: broken_sink_env_def sample_env_def)

lemma info_line_broken:
  "log_line broken_sink_env (log_New ws labelInfo flags) 3 ''x'' =
     ''[INFO]: 2009/11/10 23:00:00.000000 main.go:12: x'' @ [newline]"
  by (simp add: log_line_def log_New_def flags_no_msgprefix sample_header_flags
      labelInfo_def newline_def)

lemma quiet_uninitialized:
  assumes "inv s0" and "\<not> initialized (loggers s0 ! defaultLogger s0)"
    and "other_step\<^sup>*\<^sup>* s0 w"
  shows "lookup w (defaultLogger w) = Some (loggers w ! defaultLogger w) \<and>
         \<not> initialized (loggers w ! defaultLogger w)"
proof -
  from other_steps_default [OF assms(3)]
  have d: "defaultLogger w = defaultLogger s0" and s: "step\<^sup>*\<^sup>* s0 w" by simp_all
  note f = steps_frame [OF s assms(1)]
  have dl: "defaultLogger s0 < length (loggers s0)" using assms(1) by (simp add: inv_def)
  with f have "wiring (loggers w ! defaultLogger s0) = wiring (loggers s0 ! defaultLogger s0)"
    by blast
  then have "initialized (loggers w ! defaultLogger w) = initialized (loggers s0 ! defaultLogger s0)"
    unfolding d by (rule wiring_initialized)
  moreover have "defaultLogger w < length (loggers w)" using f by (simp add: inv_def)
  ultimately show ?thesis using assms(2) by (simp add: lookup_def)
qed

lemma fresh_process_uninitialized:
  assumes "other_step\<^sup>*\<^sup>* world0 w"
  shows "lookup w (defaultLogger w) = Some (loggers w ! defaultLogger w) \<and>
         \<not> initialized (loggers w ! defaultLogger w)"
proof (rule quiet_uninitialized [OF _ _ assms])
  show "inv world0" using reach_start by (rule reachable_inv)
  show "\<not> initialized (loggers world0 ! defaultLogger world0)"
    by (simp add: default_world0 not_initialized_world0)
qed

lemma plain_flags_pristine:
  "plain_flags \<lparr>infoLog = log_New [Stderr] (initText @ labelInfo) flags,
            warnLog = log_New [Stderr] (initText @ labelWarn) flags,
            errorLog = log_New [Stderr] (initText @ labelErr) flags,
            fatalLog = log_New [Stderr] (initText @ labelFatal) flags,
            closers = [], initialized = False, level = 0\<rparr>"
  by (simp add: plain_flags_def log_New_def flags_no_msgprefix)

lemma plain_flags_build:
  assumes "build_Logger e name verbose systemLog logFd = (l, serr)"
  shows "plain_flags l"
  using build_channels [OF assms valid_sev(1)] build_channels [OF assms valid_sev(2)]
    build_channels [OF assms valid_sev(3)] build_channels [OF assms valid_sev(4)]
  by (simp add: plain_flags_def flags_no_msgprefix)

lemma plain_flags_level [simp]: "plain_flags (lg\<lparr>level := n\<rparr>) = plain_flags lg"
  by (simp add: plain_flags_def)

lemma plain_flags_SetFlags:
  "f AND Lmsgprefix = 0 \<Longrightarrow>
   plain_flags (lg\<lparr>infoLog := log_SetFlags (infoLog lg) f,
              warnLog := log_SetFlags (warnLog lg) f,
              errorLog := log_SetFlags (errorLog lg) f,
              fatalLog := log_SetFlags (fatalLog lg) f\<rparr>)"
  by (simp add: plain_flags_def log_SetFlags_def)

lemma all_nth_append:
  assumes "\<forall>a < length xs. P (xs ! a)" and "P x"
  shows "\<forall>a < length (xs @ [x]). P ((xs @ [x]) ! a)"
  using assms by (auto simp: nth_append less_Suc_eq)

lemma all_nth_update:
  assumes "\<forall>a < length xs. P (xs ! a)" and "P x"
  shows "\<forall>a < length (xs[i := x]). P (xs[i := x] ! a)"
proof (intro allI impI)
  fix a assume "a < length (xs[i := x])"
  then have a: "a < length xs" by simp
  show "P (xs[i := x] ! a)"
  proof (cases "a = i")
    case True
    with a assms(2) show ?thesis by simp
  next
    case False
    with a assms(1) show ?thesis by simp
  qed
qed

lemma reachable_plain_inv:
  "reachable_plain w \<Longrightarrow>
   reachable w \<and> (\<forall>a < length (loggers w). plain_flags (loggers w ! a))"
proof (induction rule: reachable_plain.induct)
  case plain_start
  have "\<forall>a < length (loggers world0). plain_flags (loggers world0 ! a)"
    using plain_flags_pristine by (simp add: world0_def init_logger_def)
  with reach_start show ?case by blast
next
  case (plain_reset w)
  then have r: "reachable (init_logger w)" by (blast intro: reach_reset)
  have "\<forall>a < length (loggers (init_logger w)). plain_flags (loggers (init_logger w) ! a)"
    using all_nth_append [of "loggers w" plain_flags, OF _ plain_flags_pristine] plain_reset.IH
    by (simp add: init_logger_def)
  with r show ?case by blast
next
  case (plain_Init w e name verbose systemLog logFd a w')
  then have rw: "reachable w" and pf: "\<forall>a < length (loggers w). plain_flags (loggers w ! a)"
    by simp_all
  have dw: "defaultLogger w < length (loggers w)"
    using reachable_inv [OF rw] by (simp add: inv_def)
  from Init_Return [OF plain_Init.hyps(2) dw] obtain l serr where
    b: "build_Logger e name verbose systemLog logFd = (l, serr)" and
    lw: "loggers w' = loggers w @ [l]"
    by auto
  have "step w w'" using plain_Init.hyps(2) by (rule step_Init)
  with rw have r: "reachable w'" by (rule reach_step)
  have "\<forall>a < length (loggers w'). plain_flags (loggers w' ! a)"
    unfolding lw using pf plain_flags_build [OF b] by (rule all_nth_append)
  with r show ?case by blast
next
  case (plain_output w e l s depth msg u w')
  then have rw: "reachable w" and pf: "\<forall>a < length (loggers w). plain_flags (loggers w ! a)"
    by simp_all
  have "step w w'" using plain_output.hyps(2) by (rule step_output)
  with rw have r: "reachable w'" by (rule reach_step)
  from output_Return [OF plain_output.hyps(2)] have "loggers w' = loggers w" by auto
  with pf r show ?case by simp
next
  case (plain_Close w e l u w')
  then have rw: "reachable w" and pf: "\<forall>a < length (loggers w). plain_flags (loggers w ! a)"
    by simp_all
  have "step w w'" using plain_Close.hyps(2) by (rule step_Close)
  with rw have r: "reachable w'" by (rule reach_step)
  from Close_Return [OF plain_Close.hyps(2)] have "loggers w' = loggers w"
    by (auto split: if_splits)
  with pf r show ?case by simp
next
  case (plain_SetLevel w e l lvl u w')
  then have rw: "reachable w" and pf: "\<forall>a < length (loggers w). plain_flags (loggers w ! a)"
    by simp_all
  have "step w w'" using plain_SetLevel.hyps(2) by (rule step_SetLevel)
  with rw have r: "reachable w'" by (rule reach_step)
  from SetLevel_Return [OF plain_SetLevel.hyps(2)] obtain lg where
    lk: "lookup w l = Some lg" and lw: "loggers w' = (loggers w)[l := lg\<lparr>level := lvl\<rparr>]"
    by auto
  have "plain_flags lg" using lk pf by (auto simp: lookup_def split: if_splits)
  then have "plain_flags (lg\<lparr>level := lvl\<rparr>)" by simp
  with pf have "\<forall>a < length (loggers w'). plain_flags (loggers w' ! a)"
    unfolding lw by (rule all_nth_update)
  with r show ?case by blast
next
  case (plain_SetFlags w flag u w')
  then have rw: "reachable w" and pf: "\<forall>a < length (loggers w). plain_flags (loggers w ! a)"
    by simp_all
  have "step w w'" using plain_SetFlags.hyps(3) by (rule step_SetFlags)
  with rw have r: "reachable w'" by (rule reach_step)
  from SetFlags_Return [OF plain_SetFlags.hyps(3)] obtain lg where
    lw: "loggers w' = (loggers w)[defaultLogger w :=
                lg\<lparr>infoLog := log_SetFlags (infoLog lg) flag,
                   warnLog := log_SetFlags (warnLog lg) flag,
                   errorLog := log_SetFlags (errorLog lg) flag,
                   fatalLog := log_SetFlags (fatalLog lg) flag\<rparr>]"
    by auto
  from pf plain_flags_SetFlags [OF plain_SetFlags.hyps(2)]
  have "\<forall>a < length (loggers w'). plain_flags (loggers w' ! a)"
    unfolding lw by (rule all_nth_update)
  with r show ?case by blast
qed

lemma plain_channel:
  assumes "reachable_plain w" and "lookup w l = Some lg" and "valid_severity s"
  shows "logFlag (channel lg s) AND Lmsgprefix = 0"
proof -
  have "l < length (loggers w)" "lg = loggers w ! l"
    using assms(2) by (auto simp: lookup_def split: if_splits)
  with reachable_plain_inv [OF assms(1)] have "plain_flags lg" by simp
  then show ?thesis using assms(3) by (auto simp: plain_flags_def valid_severity_def)
qed

lemma reachable_plain_world1: "reachable_plain world1"
proof -
  have "Init sample_env ''app'' False False (Sink 1 True) world0 = (Return 1, world1)"
    by (simp add: world1_def Init_plain_world0)
  with plain_start show ?thesis by (rule plain_Init)
qed

section \<open>The claims\<close>

subsection \<open>C1: the default logger is replaced at most once\<close>

text \<open>
  Claim C1. In every state that a process can reach, \<open>Init\<close> returns the address of the
  \<open>Logger\<close> it has just built, an address that no \<open>Logger\<close> had before. The new \<open>Logger\<close>
  is initialized and has level zero; its closers are the primary destination, if that
  can be closed, and the three system-log writers, if the adapter gave them. Each of its
  four channels has the severity label as its prefix and the flags of the package, and
  writes to the primary destination first, then to the system-log writer if there is
  one, then to standard output (info and warning, when verbose) or standard error (error
  and fatal). A logging call on it returns and writes its record, label first, to these
  destinations in order, up to the first one that fails the write. The loggers that
  existed are left as they were. The new \<open>Logger\<close> becomes the default exactly when the
  old default was not initialized; otherwise \<open>defaultLogger\<close> keeps its value. After
  \<open>Init\<close> the default is initialized, and no later sequence of calls of the package
  (further calls of \<open>Init\<close> among them) changes \<open>defaultLogger\<close> again; in every later
  state the new \<open>Logger\<close> is still initialized with the same closers, prefixes and
  destinations, and a logging call on it still writes its record to them.
\<close>

theorem Init_replaces_default_once:
  assumes "reachable w"
  shows "\<exists>w1 l. Init e name verbose systemLog logFd w = (Return (length (loggers w)), w1) \<and>
     lookup w (length (loggers w)) = None \<and>
     lookup w1 (length (loggers w)) = Some l \<and> initialized l \<and> level l = 0 \<and>
     (\<exists>sysc. (sysc = [] \<or>
            sysc = [Syslog (LOG_USER OR LOG_NOTICE) name, Syslog (LOG_USER OR LOG_WARNING) name,
                    Syslog (LOG_USER OR LOG_ERR) name]) \<and>
         closers l = (if is_Closer logFd then [logFd] else []) @ sysc) \<and>
     (\<forall>s. valid_severity s \<longrightarrow>
        logPrefix (channel l s) = label_of s \<and> logFlag (channel l s) = flags \<and>
        (\<exists>sys. (sys = [] \<or> (\<exists>p. sys = [Syslog p name])) \<and>
           logOut (channel l s) =
             [logFd] @ sys @
             (if s = sInfo \<or> s = sWarn then (if verbose then [Stdout] else []) else [Stderr])) \<and>
        (\<forall>e' depth msg.
           Logger_output e' (length (loggers w)) s depth msg w1 =
             (Return (), w1\<lparr>trace := trace w1 @
                multi_Write e' (logOut (channel l s))
                  (label_of s @ header e' flags (3 + depth) @ msg @
                   (if msg = [] \<or> last msg \<noteq> newline then [newline] else []))\<rparr>))) \<and>
     (\<forall>a < length (loggers w). loggers w1 ! a = loggers w ! a) \<and>
     defaultLogger w1 =
       (if initialized (loggers w ! defaultLogger w) then defaultLogger w
        else length (loggers w)) \<and>
     initialized (loggers w1 ! defaultLogger w1) \<and>
     (\<forall>w2. step\<^sup>*\<^sup>* w1 w2 \<longrightarrow>
        defaultLogger w2 = defaultLogger w1 \<and>
        (\<exists>lg. lookup w2 (length (loggers w)) = Some lg \<and> initialized lg \<and>
           closers lg = closers l \<and>
           (\<forall>s e' depth msg. valid_severity s \<longrightarrow>
              logPrefix (channel lg s) = label_of s \<and>
              logOut (channel lg s) = logOut (channel l s) \<and>
              Logger_output e' (length (loggers w)) s depth msg w2 =
                (Return (), w2\<lparr>trace := trace w2 @
                   multi_Write e' (logOut (channel l s))
                     (log_line e' (channel lg s) (3 + depth) msg)\<rparr>))))"
proof -
  have iw: "inv w" using assms by (rule reachable_inv)
  then have dw: "defaultLogger w < length (loggers w)" by (simp add: inv_def)
  then have d: "lookup w (defaultLogger w) = Some (loggers w ! defaultLogger w)"
    by (simp add: lookup_def)
  define a where "a = length (loggers w)"
  define l where "l = fst (build_Logger e name verbose systemLog logFd)"
  define serr where "serr = snd (build_Logger e name verbose systemLog logFd)"
  have b: "build_Logger e name verbose systemLog logFd = (l, serr)"
    by (simp add: l_def serr_def)
  have il: "initialized l" using build_wired [OF b] by (rule wired_initialized)
  have lv: "level l = 0" using b by (rule build_level)
  note cl = build_closers [OF b]
  define w1 where "w1 = snd (Init e name verbose systemLog logFd w)"
  note i = Init_eq [OF d b]
  have r: "Init e name verbose systemLog logFd w = (Return a, w1)"
    using i by (simp add: w1_def a_def)
  have lw1: "loggers w1 = loggers w @ [l]" using i by (simp add: w1_def)
  have lk: "lookup w1 a = Some l"
    by (simp add: lookup_def lw1 a_def)
  have fresh: "lookup w a = None" by (simp add: a_def)
  have chan: "logPrefix (channel l s) = label_of s \<and> logFlag (channel l s) = flags \<and>
        (\<exists>sys. (sys = [] \<or> (\<exists>p. sys = [Syslog p name])) \<and>
           logOut (channel l s) =
             [logFd] @ sys @
             (if s = sInfo \<or> s = sWarn then (if verbose then [Stdout] else []) else [Stderr])) \<and>
        (\<forall>e' depth msg.
           Logger_output e' a s depth msg w1 =
             (Return (), w1\<lparr>trace := trace w1 @
                multi_Write e' (logOut (channel l s))
                  (label_of s @ header e' flags (3 + depth) @ msg @
                   (if msg = [] \<or> last msg \<noteq> newline then [newline] else []))\<rparr>))"
    if vs: "valid_severity s" for s
  proof -
    note c = build_channels [OF b vs]
    from c have p: "logPrefix (channel l s) = label_of s" and f: "logFlag (channel l s) = flags"
      by simp_all
    have "Logger_output e' a s depth msg w1 =
             (Return (), w1\<lparr>trace := trace w1 @
                multi_Write e' (logOut (channel l s))
                  (label_of s @ header e' flags (3 + depth) @ msg @
                   (if msg = [] \<or> last msg \<noteq> newline then [newline] else []))\<rparr>)"
      for e' depth msg
      using output_eq [OF vs lk, of e' depth msg]
      by (simp add: log_Output_def log_line_labelled [OF p f])
    with c show ?thesis by blast
  qed
  have old: "\<forall>b < length (loggers w). loggers w1 ! b = loggers w ! b"
    by (simp add: lw1 nth_append)
  have df: "defaultLogger w1 =
       (if initialized (loggers w ! defaultLogger w) then defaultLogger w
        else length (loggers w))"
    using i by (simp add: w1_def)
  have di: "initialized (loggers w1 ! defaultLogger w1)"
    using dw il by (simp add: df lw1 nth_append)
  have "step w w1" using r by (rule step_Init)
  then have iw1: "inv w1" using iw by (rule step_inv)
  have later: "defaultLogger w2 = defaultLogger w1 \<and>
        (\<exists>lg. lookup w2 a = Some lg \<and> initialized lg \<and>
           closers lg = closers l \<and>
           (\<forall>s e' depth msg. valid_severity s \<longrightarrow>
              logPrefix (channel lg s) = label_of s \<and>
              logOut (channel lg s) = logOut (channel l s) \<and>
              Logger_output e' a s depth msg w2 =
                (Return (), w2\<lparr>trace := trace w2 @
                   multi_Write e' (logOut (channel l s))
                     (log_line e' (channel lg s) (3 + depth) msg)\<rparr>)))"
    if st: "step\<^sup>*\<^sup>* w1 w2" for w2
  proof -
    note f = steps_frame [OF st iw1]
    from f di have dd: "defaultLogger w2 = defaultLogger w1" by blast
    from steps_logger [OF assms r st]
    have lk2: "lookup w2 a = Some (loggers w2 ! a)" and wr: "wiring (loggers w2 ! a) = wiring l"
      by (simp_all add: a_def l_def)
    define lg where "lg = loggers w2 ! a"
    have i2: "initialized lg" using wiring_initialized [OF wr] il by (simp add: lg_def)
    have c2: "closers lg = closers l" using wiring_closers [OF wr] by (simp add: lg_def)
    have ch: "logPrefix (channel lg s) = label_of s \<and>
              logOut (channel lg s) = logOut (channel l s) \<and>
              Logger_output e' a s depth msg w2 =
                (Return (), w2\<lparr>trace := trace w2 @
                   multi_Write e' (logOut (channel l s))
                     (log_line e' (channel lg s) (3 + depth) msg)\<rparr>)"
      if vs: "valid_severity s" for s e' depth msg
    proof -
      have o: "logOut (channel lg s) = logOut (channel l s)"
        and p: "logPrefix (channel lg s) = logPrefix (channel l s)"
        using wiring_channel [OF wr vs] by (simp_all add: lg_def)
      have "logPrefix (channel l s) = label_of s" using build_channels [OF b vs] by simp
      with p have p': "logPrefix (channel lg s) = label_of s" by simp
      have "Logger_output e' a s depth msg w2 =
                (Return (), w2\<lparr>trace := trace w2 @
                   multi_Write e' (logOut (channel l s))
                     (log_line e' (channel lg s) (3 + depth) msg)\<rparr>)"
        using output_eq [OF vs, of w2 a lg e' depth msg] lk2
        by (simp add: lg_def [symmetric] log_Output_def o)
      with o p' show ?thesis by blast
    qed
    from dd lk2 i2 c2 ch show ?thesis unfolding lg_def by blast
  qed
  from r fresh lk il lv cl chan old df di later show ?thesis unfolding a_def by blast
qed

theorem Init_replaces_default_once_witness:
  "reachable world0 \<and>
   fst (Init sample_env ''test1'' False False (Sink 1 False) world0) = Return 1 \<and>
   defaultLogger (snd (Init sample_env ''test1'' False False (Sink 1 False) world0)) = 1 \<and>
   fst (Init sample_env ''test2'' False False (Sink 2 False)
          (snd (Init sample_env ''test1'' False False (Sink 1 False) world0))) = Return 2 \<and>
   defaultLogger (snd (Init sample_env ''test2'' False False (Sink 2 False)
          (snd (Init sample_env ''test1'' False False (Sink 1 False) world0)))) = 1 \<and>
   trace (snd (Logger_output sample_env 2 sInfo 0 ''logger #2''
     (snd (Init sample_env ''test2'' False False (Sink 2 False)
          (snd (Init sample_env ''test1'' False False (Sink 1 False) world0)))))) =
     [Write (Sink 2 False) (''[INFO]: 2009/11/10 23:00:00.000000 main.go:12: logger #2'' @ [newline])]"
proof -
  define w1 where "w1 = snd (Init sample_env ''test1'' False False (Sink 1 False) world0)"
  define w2 where "w2 = snd (Init sample_env ''test2'' False False (Sink 2 False) w1)"
  have r1: "reachable w1" unfolding w1_def by (rule reachable_Init [OF reach_start])
  have i0: "\<not> initialized (loggers world0 ! defaultLogger world0)"
    by (simp add: default_world0 not_initialized_world0)
  from Init_replaces_default_once [OF reach_start, of sample_env "''test1''" False False "Sink 1 False"]
  obtain w1' l1 where
    a1: "Init sample_env ''test1'' False False (Sink 1 False) world0 =
           (Return (length (loggers world0)), w1')"
    and a2: "defaultLogger w1' =
       (if initialized (loggers world0 ! defaultLogger world0) then defaultLogger world0
        else length (loggers world0))"
    and a3: "initialized (loggers w1' ! defaultLogger w1')"
    by (elim exE conjE) (rule that, assumption+)
  have e1: "w1' = w1" using a1 by (simp add: w1_def)
  have d1: "defaultLogger w1 = 1" using a2 i0 by (simp add: e1 default_world0)
  have f1: "fst (Init sample_env ''test1'' False False (Sink 1 False) world0) = Return 1"
    using a1 by (simp add: default_world0)
  have len1: "length (loggers w1) = 2" unfolding w1_def by (rule length_Init_world0)
  have t1: "trace w1 = []" unfolding w1_def by (rule Init_world0_lookup(2))
  have i1: "initialized (loggers w1 ! defaultLogger w1)" using a3 by (simp add: e1)
  have dl1: "lookup w1 (defaultLogger w1) = Some (loggers w1 ! defaultLogger w1)"
    by (simp add: lookup_def d1 len1)
  from Init_replaces_default_once [OF r1, of sample_env "''test2''" False False "Sink 2 False"]
  obtain w2' l2 where
    b1: "Init sample_env ''test2'' False False (Sink 2 False) w1 = (Return (length (loggers w1)), w2')"
    and b4: "lookup w2' (length (loggers w1)) = Some l2"
    and b2: "defaultLogger w2' =
       (if initialized (loggers w1 ! defaultLogger w1) then defaultLogger w1
        else length (loggers w1))"
    and b5: "\<forall>s. valid_severity s \<longrightarrow>
        logPrefix (channel l2 s) = label_of s \<and> logFlag (channel l2 s) = flags \<and>
        (\<exists>sys. (sys = [] \<or> (\<exists>p. sys = [Syslog p ''test2''])) \<and>
           logOut (channel l2 s) =
             [Sink 2 False] @ sys @
             (if s = sInfo \<or> s = sWarn then (if False then [Stdout] else []) else [Stderr])) \<and>
        (\<forall>e' depth msg.
           Logger_output e' (length (loggers w1)) s depth msg w2' =
             (Return (), w2'\<lparr>trace := trace w2' @
                multi_Write e' (logOut (channel l2 s))
                  (label_of s @ header e' flags (3 + depth) @ msg @
                   (if msg = [] \<or> last msg \<noteq> newline then [newline] else []))\<rparr>))"
    by (elim exE conjE) (rule that, assumption+)
  have e2: "w2' = w2" using b1 by (simp add: w2_def)
  have f2: "fst (Init sample_env ''test2'' False False (Sink 2 False) w1) = Return 2"
    using b1 by (simp add: len1)
  have d2: "defaultLogger w2 = 1" using b2 i1 by (simp add: d1 e2)
  have direct: "Init sample_env ''test2'' False False (Sink 2 False) w1 =
     (Return (length (loggers w1)),
      w1\<lparr>loggers := loggers w1 @
         [\<lparr>infoLog = log_New ([Sink 2 False] @ (if False then [Stdout] else [])) labelInfo flags,
           warnLog = log_New ([Sink 2 False] @ (if False then [Stdout] else [])) labelWarn flags,
           errorLog = log_New [Sink 2 False, Stderr] labelErr flags,
           fatalLog = log_New [Sink 2 False, Stderr] labelFatal flags,
           closers = (if is_Closer (Sink 2 False) then [Sink 2 False] else []),
           initialized = True, level = 0\<rparr>],
        defaultLogger := (if initialized (loggers w1 ! defaultLogger w1) then defaultLogger w1
                          else length (loggers w1)),
        trace := trace w1\<rparr>)"
    by (rule Init_plain [OF dl1])
  have t2: "trace w2 = []" using direct t1 by (simp add: w2_def)
  have out2: "logOut (infoLog l2) = [Sink 2 False]"
    using b4 direct by (auto simp: e2 w2_def lookup_def log_New_def)
  from b5 [rule_format, OF valid_sev(1)]
  have "Logger_output sample_env (length (loggers w1)) sInfo 0 ''logger #2'' w2' =
             (Return (), w2'\<lparr>trace := trace w2' @
                multi_Write sample_env (logOut (channel l2 sInfo))
                  (label_of sInfo @ header sample_env flags (3 + 0) @ ''logger #2'' @
                   (if ''logger #2'' = [] \<or> last ''logger #2'' \<noteq> newline then [newline] else []))\<rparr>)"
    by blast
  then have tr: "trace (snd (Logger_output sample_env 2 sInfo 0 ''logger #2'' w2)) =
     [Write (Sink 2 False) (''[INFO]: 2009/11/10 23:00:00.000000 main.go:12: logger #2'' @ [newline])]"
    by (simp add: e2 len1 t2 out2 write_to_def labelInfo_def
        sample_header_flags newline_def)
  from reach_start f1 d1 f2 d2 tr show ?thesis unfolding w2_def w1_def by blast
qed

subsection \<open>C2: a verbosity handle is a snapshot\<close>

text \<open>
  Claim C2. For a \<open>Logger\<close> with level \<open>L\<close> and a requested level \<open>T\<close>, \<open>Verbosity\<close>
  returns a handle whose enabled flag is \<open>L \<ge> T\<close>. \<open>SetLevel\<close> afterwards returns and
  stores the new level, and a handle made then has the flag of the new level; the handle
  made before keeps its flag: in the state after \<open>SetLevel\<close> its \<open>Info\<close>, \<open>Infoln\<close> and
  \<open>Infof\<close> write one info record if \<open>L \<ge> T\<close> held at its creation and nothing
  otherwise, whatever the new level is.
\<close>

theorem verbosity_snapshot:
  assumes "lookup w l = Some lg"
  shows "Logger_Verbosity l T w = Return \<lparr>enabled = (level lg \<ge> T), logger = l\<rparr> \<and>
    (\<exists>w' lg'. Logger_SetLevel e l lvl w = (Return (), w') \<and>
       lookup w' l = Some lg' \<and> level lg' = lvl \<and>
       Logger_Verbosity l T w' = Return \<lparr>enabled = (lvl \<ge> T), logger = l\<rparr> \<and>
       (\<forall>e' args.
          Verbose_Info e' \<lparr>enabled = (level lg \<ge> T), logger = l\<rparr> args w' =
            (Return (), if level lg \<ge> T
                        then w'\<lparr>trace := trace w' @ log_Output e' (infoLog lg) 3 args\<rparr> else w') \<and>
          Verbose_Infoln e' \<lparr>enabled = (level lg \<ge> T), logger = l\<rparr> args w' =
            (Return (), if level lg \<ge> T
                        then w'\<lparr>trace := trace w' @ log_Output e' (infoLog lg) 3 (args @ [newline])\<rparr>
                        else w') \<and>
          Verbose_Infof e' \<lparr>enabled = (level lg \<ge> T), logger = l\<rparr> args w' =
            (Return (), if level lg \<ge> T
                        then w'\<lparr>trace := trace w' @ log_Output e' (infoLog lg) 3 args\<rparr> else w')))"
proof -
  have lt: "l < length (loggers w)" using assms by (rule lookup_Some_less)
  define w1 where "w1 = w\<lparr>loggers := (loggers w)[l := lg\<lparr>level := lvl\<rparr>]\<rparr>"
  define w' where "w' = w1\<lparr>trace := trace w1 @
     log_Output e (infoLog lg) 3 (''Info verbosity set to '' @ show_int lvl)\<rparr>"
  have l1: "lookup w1 l = Some (lg\<lparr>level := lvl\<rparr>)"
    using lt by (simp add: w1_def lookup_update)
  have set: "Logger_SetLevel e l lvl w = (Return (), w')"
    using assms output_eq [OF valid_sev(1) l1, of e 0]
    by (simp add: Logger_SetLevel_def w'_def w1_def)
  have l': "lookup w' l = Some (lg\<lparr>level := lvl\<rparr>)"
    using l1 by (simp add: w'_def)
  have v0: "Logger_Verbosity l T w = Return \<lparr>enabled = (level lg \<ge> T), logger = l\<rparr>"
    using assms by (simp add: Logger_Verbosity_def)
  have v1: "Logger_Verbosity l T w' = Return \<lparr>enabled = (lvl \<ge> T), logger = l\<rparr>"
    using l' by (simp add: Logger_Verbosity_def)
  have out: "Logger_output e' l sInfo 0 args w' =
      (Return (), w'\<lparr>trace := trace w' @ log_Output e' (infoLog lg) 3 args\<rparr>)" for e' args
    using output_eq [OF valid_sev(1) l', of e' 0 args] by simp
  have gate: "\<forall>e' args.
          Verbose_Info e' \<lparr>enabled = (level lg \<ge> T), logger = l\<rparr> args w' =
            (Return (), if level lg \<ge> T
                        then w'\<lparr>trace := trace w' @ log_Output e' (infoLog lg) 3 args\<rparr> else w') \<and>
          Verbose_Infoln e' \<lparr>enabled = (level lg \<ge> T), logger = l\<rparr> args w' =
            (Return (), if level lg \<ge> T
                        then w'\<lparr>trace := trace w' @ log_Output e' (infoLog lg) 3 (args @ [newline])\<rparr>
                        else w') \<and>
          Verbose_Infof e' \<lparr>enabled = (level lg \<ge> T), logger = l\<rparr> args w' =
            (Return (), if level lg \<ge> T
                        then w'\<lparr>trace := trace w' @ log_Output e' (infoLog lg) 3 args\<rparr> else w')"
    by (simp add: Verbose_Info_def Verbose_Infoln_def Verbose_Infof_def out)
  from v0 set l' v1 gate show ?thesis by auto
qed

theorem verbosity_snapshot_witness:
  "lookup world0 0 = Some (loggers world0 ! 0) \<and>
   Logger_Verbosity 0 1 world0 = Return \<lparr>enabled = False, logger = 0\<rparr> \<and>
   fst (Logger_SetLevel sample_env 0 2 world0) = Return () \<and>
   Logger_Verbosity 0 1 (snd (Logger_SetLevel sample_env 0 2 world0)) =
     Return \<lparr>enabled = True, logger = 0\<rparr> \<and>
   Verbose_Info sample_env \<lparr>enabled = False, logger = 0\<rparr> ''x''
       (snd (Logger_SetLevel sample_env 0 2 world0)) =
     (Return (), snd (Logger_SetLevel sample_env 0 2 world0))"
  using verbosity_snapshot [OF lookup_world0, of 1 sample_env 2] lookup_world0
  by (auto simp: level_world0)

subsection \<open>C3: Close on a Logger that is not initialized\<close>

text \<open>
  Claim C3. \<open>Close\<close> on a \<open>Logger\<close> whose initialized flag is false returns normally and
  leaves the whole state as it was: no closer is closed and nothing is written. A second
  \<open>Close\<close> on that \<open>Logger\<close> does the same, and so does the package-level \<open>Close\<close> when the
  default logger is such a \<open>Logger\<close>. \<open>Close\<close> has no result, so it cannot report an
  error to its caller.
\<close>

theorem Close_uninitialized_noop:
  assumes "lookup w l = Some lg" and "\<not> initialized lg"
  shows "Logger_Close e l w = (Return (), w) \<and>
         Logger_Close e2 l (snd (Logger_Close e l w)) = (Return (), w) \<and>
         (l = defaultLogger w \<longrightarrow>
            Close e w = (Return (), w) \<and> Close e2 (snd (Close e w)) = (Return (), w))"
  using assms by (auto simp: Close_eq Close_def)

theorem Close_uninitialized_noop_witness:
  "lookup world0 0 = Some (loggers world0 ! 0) \<and> \<not> initialized (loggers world0 ! 0) \<and>
   0 = defaultLogger world0 \<and>
   Logger_Close closed_env 0 world0 = (Return (), world0) \<and>
   Logger_Close closed_env 0 (snd (Logger_Close closed_env 0 world0)) = (Return (), world0) \<and>
   Close closed_env world0 = (Return (), world0)"
  using Close_uninitialized_noop [OF lookup_world0 not_initialized_world0, of closed_env closed_env]
    lookup_world0 not_initialized_world0
  by (simp add: default_world0)

subsection \<open>C4: the level of a new Logger is zero\<close>

text \<open>
  Claim C4, as the code has it. The \<open>Logger\<close> that \<open>Init\<close> returns has level zero, and so
  has the one that \<open>init_logger\<close> installs. A handle that \<open>Verbosity\<close> makes from the new
  \<open>Logger\<close> is enabled exactly when the requested level is at most zero: for every
  requested level above zero its \<open>Info\<close>, \<open>Infoln\<close> and \<open>Infof\<close> do nothing, in any
  state; for a requested level of zero or below its \<open>Info\<close> writes one info record.
\<close>

theorem fresh_level_zero_gate:
  assumes "reachable w"
  shows "\<exists>w1 l. Init e name verbose systemLog logFd w = (Return (length (loggers w)), w1) \<and>
     lookup w1 (length (loggers w)) = Some l \<and> level l = 0 \<and>
     (\<forall>T. Logger_Verbosity (length (loggers w)) T w1 =
             Return \<lparr>enabled = (0 \<ge> T), logger = length (loggers w)\<rparr>) \<and>
     (\<forall>(T::int) e' args w'. 0 < T \<longrightarrow>
        Verbose_Info e' \<lparr>enabled = (0 \<ge> T), logger = length (loggers w)\<rparr> args w' = (Return (), w') \<and>
        Verbose_Infoln e' \<lparr>enabled = (0 \<ge> T), logger = length (loggers w)\<rparr> args w' = (Return (), w') \<and>
        Verbose_Infof e' \<lparr>enabled = (0 \<ge> T), logger = length (loggers w)\<rparr> args w' = (Return (), w')) \<and>
     (\<forall>(T::int) e' args. T \<le> 0 \<longrightarrow>
        Verbose_Info e' \<lparr>enabled = (0 \<ge> T), logger = length (loggers w)\<rparr> args w1 =
          (Return (), w1\<lparr>trace := trace w1 @ log_Output e' (infoLog l) 3 args\<rparr>)) \<and>
     level (loggers (init_logger w) ! defaultLogger (init_logger w)) = 0"
proof -
  have "inv w" using assms by (rule reachable_inv)
  then have d: "lookup w (defaultLogger w) = Some (loggers w ! defaultLogger w)"
    by (simp add: inv_def lookup_def)
  define l where "l = fst (build_Logger e name verbose systemLog logFd)"
  define serr where "serr = snd (build_Logger e name verbose systemLog logFd)"
  have b: "build_Logger e name verbose systemLog logFd = (l, serr)"
    by (simp add: l_def serr_def)
  have lv: "level l = 0" using b by (rule build_level)
  define w1 where "w1 = snd (Init e name verbose systemLog logFd w)"
  note i = Init_eq [OF d b]
  have r: "Init e name verbose systemLog logFd w = (Return (length (loggers w)), w1)"
    using i by (simp add: w1_def)
  have lk: "lookup w1 (length (loggers w)) = Some l"
    using i by (simp add: w1_def lookup_def)
  have v: "\<forall>T. Logger_Verbosity (length (loggers w)) T w1 =
             Return \<lparr>enabled = (0 \<ge> T), logger = length (loggers w)\<rparr>"
    using lk lv by (simp add: Logger_Verbosity_def)
  have off: "\<forall>(T::int) e' args w'. 0 < T \<longrightarrow>
        Verbose_Info e' \<lparr>enabled = (0 \<ge> T), logger = length (loggers w)\<rparr> args w' = (Return (), w') \<and>
        Verbose_Infoln e' \<lparr>enabled = (0 \<ge> T), logger = length (loggers w)\<rparr> args w' = (Return (), w') \<and>
        Verbose_Infof e' \<lparr>enabled = (0 \<ge> T), logger = length (loggers w)\<rparr> args w' = (Return (), w')"
    by (auto simp: Verbose_Info_def Verbose_Infoln_def Verbose_Infof_def)
  have on: "\<forall>(T::int) e' args. T \<le> 0 \<longrightarrow>
        Verbose_Info e' \<lparr>enabled = (0 \<ge> T), logger = length (loggers w)\<rparr> args w1 =
          (Return (), w1\<lparr>trace := trace w1 @ log_Output e' (infoLog l) 3 args\<rparr>)"
    using output_eq [OF valid_sev(1) lk] by (simp add: Verbose_Info_def)
  have p: "level (loggers (init_logger w) ! defaultLogger (init_logger w)) = 0"
    by (simp add: init_logger_def)
  from r lk lv v off on p show ?thesis by blast
qed

theorem fresh_level_zero_gate_witness:
  "reachable world0 \<and> (0::int) < 1 \<and>
   Logger_Verbosity 1 1 world1 = Return \<lparr>enabled = False, logger = 1\<rparr> \<and>
   Verbose_Info sample_env \<lparr>enabled = False, logger = 1\<rparr> ''x'' world1 = (Return (), world1)"
proof -
  from fresh_level_zero_gate [OF reach_start, of sample_env "''app''" False False "Sink 1 True"]
  obtain w1 where
    i: "Init sample_env ''app'' False False (Sink 1 True) world0 = (Return (length (loggers world0)), w1)"
    and v: "\<forall>T. Logger_Verbosity (length (loggers world0)) T w1 =
             Return \<lparr>enabled = (0 \<ge> T), logger = length (loggers world0)\<rparr>"
    and off: "\<forall>(T::int) e' args w'. 0 < T \<longrightarrow>
        Verbose_Info e' \<lparr>enabled = (0 \<ge> T), logger = length (loggers world0)\<rparr> args w' = (Return (), w') \<and>
        Verbose_Infoln e' \<lparr>enabled = (0 \<ge> T), logger = length (loggers world0)\<rparr> args w' = (Return (), w') \<and>
        Verbose_Infof e' \<lparr>enabled = (0 \<ge> T), logger = length (loggers world0)\<rparr> args w' = (Return (), w')"
    by (elim exE conjE) (rule that, assumption+)
  have w1: "w1 = world1" using i by (simp add: world1_def)
  have a: "Logger_Verbosity 1 1 world1 = Return \<lparr>enabled = False, logger = 1\<rparr>"
    using v [rule_format, of 1] by (simp add: w1 default_world0)
  have b: "Verbose_Info sample_env \<lparr>enabled = False, logger = 1\<rparr> ''x'' world1 = (Return (), world1)"
    using off [rule_format, of 1 sample_env "''x''" world1] by (simp add: default_world0)
  from reach_start a b show ?thesis by simp
qed

text \<open>
  The claim as the specification words it ("no records at any requested level") fails at
  the requested level zero: the handle of a new \<open>Logger\<close> is enabled, since \<open>0 >= 0\<close>,
  and its \<open>Info\<close> writes a record.
\<close>

theorem verbosity_zero_counterexample:
  "Init sample_env ''app'' False False (Sink 1 True) world0 = (Return 1, world1) \<and>
   Logger_Verbosity 1 0 world1 = Return \<lparr>enabled = True, logger = 1\<rparr> \<and>
   Verbose_Info sample_env \<lparr>enabled = True, logger = 1\<rparr> ''x'' world1 =
     (Return (), world1\<lparr>trace :=
        [Write (Sink 1 True) (''[INFO]: 2009/11/10 23:00:00.000000 main.go:12: x'' @ [newline])]\<rparr>)"
proof -
  have i: "Init sample_env ''app'' False False (Sink 1 True) world0 = (Return 1, world1)"
    by (simp add: world1_def Init_plain_world0)
  have v: "Logger_Verbosity 1 0 world1 = Return \<lparr>enabled = True, logger = 1\<rparr>"
    using lookup_world1 by (simp add: Logger_Verbosity_def logger_world1)
  have o: "Verbose_Info sample_env \<lparr>enabled = True, logger = 1\<rparr> ''x'' world1 =
     (Return (), world1\<lparr>trace :=
        [Write (Sink 1 True) (''[INFO]: 2009/11/10 23:00:00.000000 main.go:12: x'' @ [newline])]\<rparr>)"
    using output_eq [OF valid_sev(1) lookup_world1, of sample_env 0 "''x''"]
    by (simp add: Verbose_Info_def logger_world1 trace_world1 log_Output_def log_line_def
        log_New_def flags_no_msgprefix sample_env_def sample_header_flags labelInfo_def newline_def
        write_to_def)
  from i v o show ?thesis by blast
qed

subsection \<open>C5: verbose adds standard output to the info and warning channels\<close>

text \<open>
  Claim C5, as the code has it. Take the \<open>Logger\<close> that \<open>Init\<close> returns in a reachable
  state, and any later state of the process. An info or warning record logged through it
  is written, in this order, to the primary destination \<open>logFd\<close>, to the system-log
  writer of the channel if the adapter gave one, and, if \<open>verbose\<close> was true, to standard
  output; the first destination that fails the write ends the sequence. So with
  \<open>verbose = false\<close> and a primary destination other than standard output, nothing is
  written to standard output. With \<open>verbose = true\<close> the record arrives at the primary
  destination and is then written to standard output, provided that the destinations
  before standard output accept it. When the primary destination fails the write,
  nothing else is written.
\<close>

theorem verbose_adds_stdout:
  assumes "reachable w" and "Init e name verbose systemLog logFd w = (r, w1)"
    and "step\<^sup>*\<^sup>* w1 w2" and "s = sInfo \<or> s = sWarn"
  shows "\<exists>sys lg line evs. r = Return (length (loggers w)) \<and>
     lookup w2 (length (loggers w)) = Some lg \<and>
     (sys = [] \<or> (\<exists>p. sys = [Syslog p name])) \<and>
     line = log_line e' (channel lg s) (3 + depth) msg \<and>
     evs = multi_Write e' ([logFd] @ sys @ (if verbose then [Stdout] else [])) line \<and>
     Logger_output e' (length (loggers w)) s depth msg w2 =
       (Return (), w2\<lparr>trace := trace w2 @ evs\<rparr>) \<and>
     (\<not> verbose \<and> logFd \<noteq> Stdout \<longrightarrow> Stdout \<notin> set (attempted evs)) \<and>
     (verbose \<and> (\<forall>d \<in> set ([logFd] @ sys). \<not> writeFails e' d) \<longrightarrow>
        (logFd, line) \<in> set (arrived evs) \<and> Stdout \<in> set (attempted evs) \<and>
        (\<not> writeFails e' Stdout \<longrightarrow> (Stdout, line) \<in> set (arrived evs))) \<and>
     (writeFails e' logFd \<longrightarrow> evs = [FailedWrite logFd line])"
proof -
  define a where "a = length (loggers w)"
  define lg where "lg = loggers w2 ! a"
  define l where "l = fst (build_Logger e name verbose systemLog logFd)"
  have b: "build_Logger e name verbose systemLog logFd =
      (l, snd (build_Logger e name verbose systemLog logFd))"
    by (simp add: l_def)
  from steps_logger [OF assms(1-3)]
  have r: "r = Return a" and lk: "lookup w2 a = Some lg" and wr: "wiring lg = wiring l"
    by (simp_all add: a_def lg_def l_def)
  have vs: "valid_severity s" using assms(4) by auto
  from build_info_warn_dests [OF b assms(4)] obtain sys where
    sys: "sys = [] \<or> (\<exists>p. sys = [Syslog p name])" and
    out: "logOut (channel l s) = [logFd] @ sys @ (if verbose then [Stdout] else [])"
    by blast
  have out': "logOut (channel lg s) = [logFd] @ sys @ (if verbose then [Stdout] else [])"
    using wiring_channel(1) [OF wr vs] out by simp
  define line where "line = log_line e' (channel lg s) (3 + depth) msg"
  define evs where "evs = multi_Write e' ([logFd] @ sys @ (if verbose then [Stdout] else [])) line"
  have o: "Logger_output e' a s depth msg w2 = (Return (), w2\<lparr>trace := trace w2 @ evs\<rparr>)"
    using output_eq [OF vs lk, of e' depth msg] out'
    by (simp add: log_Output_def evs_def line_def)
  have n: "\<not> verbose \<and> logFd \<noteq> Stdout \<longrightarrow> Stdout \<notin> set (attempted evs)"
  proof
    assume h: "\<not> verbose \<and> logFd \<noteq> Stdout"
    have "set (attempted evs) \<subseteq> set ([logFd] @ sys @ (if verbose then [Stdout] else []))"
      unfolding evs_def by (rule attempted_multi_Write)
    moreover have "Stdout \<notin> set ([logFd] @ sys @ (if verbose then [Stdout] else []))"
      using h sys by auto
    ultimately show "Stdout \<notin> set (attempted evs)" by blast
  qed
  have v: "verbose \<and> (\<forall>d \<in> set ([logFd] @ sys). \<not> writeFails e' d) \<longrightarrow>
        (logFd, line) \<in> set (arrived evs) \<and> Stdout \<in> set (attempted evs) \<and>
        (\<not> writeFails e' Stdout \<longrightarrow> (Stdout, line) \<in> set (arrived evs))"
  proof
    assume h: "verbose \<and> (\<forall>d \<in> set ([logFd] @ sys). \<not> writeFails e' d)"
    then have ok: "\<forall>d \<in> set ([logFd] @ sys). \<not> writeFails e' d" and vb: verbose by simp_all
    have "evs = multi_Write e' (([logFd] @ sys) @ [Stdout]) line"
      using vb by (simp add: evs_def)
    then have e: "evs = map (\<lambda>d. Write d line) ([logFd] @ sys) @ multi_Write e' [Stdout] line"
      using multi_Write_append_ok [OF ok, of "[Stdout]" line] by simp
    show "(logFd, line) \<in> set (arrived evs) \<and> Stdout \<in> set (attempted evs) \<and>
        (\<not> writeFails e' Stdout \<longrightarrow> (Stdout, line) \<in> set (arrived evs))"
      unfolding e by (auto simp: write_to_def)
  qed
  have f: "writeFails e' logFd \<longrightarrow> evs = [FailedWrite logFd line]"
    by (simp add: evs_def write_to_def)
  from r lk sys o n v f line_def evs_def show ?thesis unfolding a_def by blast
qed

theorem verbose_adds_stdout_witness:
  "reachable world0 \<and>
   Init sample_env ''app'' True False (Sink 1 False) world0 =
     (Return 1, snd (Init sample_env ''app'' True False (Sink 1 False) world0)) \<and>
   step\<^sup>*\<^sup>* (snd (Init sample_env ''app'' True False (Sink 1 False) world0))
          (snd (Init sample_env ''app'' True False (Sink 1 False) world0)) \<and>
   (sInfo = sInfo \<or> sInfo = sWarn) \<and>
   \<not> writeFails sample_env (Sink 1 False) \<and>
   trace (snd (Logger_output sample_env 1 sInfo 0 ''x''
            (snd (Init sample_env ''app'' True False (Sink 1 False) world0)))) =
     [Write (Sink 1 False) (''[INFO]: 2009/11/10 23:00:00.000000 main.go:12: x'' @ [newline]),
      Write Stdout (''[INFO]: 2009/11/10 23:00:00.000000 main.go:12: x'' @ [newline])] \<and>
   writeFails broken_sink_env (Sink 1 False) \<and>
   trace (snd (Logger_output broken_sink_env 1 sInfo 0 ''x''
            (snd (Init sample_env ''app'' True False (Sink 1 False) world0)))) =
     [FailedWrite (Sink 1 False) (''[INFO]: 2009/11/10 23:00:00.000000 main.go:12: x'' @ [newline])]"
proof -
  define wv where "wv = snd (Init sample_env ''app'' True False (Sink 1 False) world0)"
  have i: "Init sample_env ''app'' True False (Sink 1 False) world0 = (Return 1, wv)"
    by (simp add: wv_def Init_plain_world0)
  have st: "step\<^sup>*\<^sup>* wv wv" by simp
  have sv: "sInfo = sInfo \<or> sInfo = sWarn" by simp
  have tw: "trace wv = []" unfolding wv_def by (rule Init_world0_lookup(2))
  have lkd: "lookup wv 1 = Some \<lparr>infoLog = log_New ([Sink 1 False] @ [Stdout]) labelInfo flags,
           warnLog = log_New ([Sink 1 False] @ [Stdout]) labelWarn flags,
           errorLog = log_New [Sink 1 False, Stderr] labelErr flags,
           fatalLog = log_New [Sink 1 False, Stderr] labelFatal flags,
           closers = [],
           initialized = True, level = 0\<rparr>"
    using Init_world0_lookup(1) [of sample_env "''app''" True "Sink 1 False"]
    by (simp add: wv_def)
  have tr: "trace (snd (Logger_output ev 1 sInfo 0 ''x'' wv)) =
      multi_Write ev [Sink 1 False, Stdout]
        (log_line ev (log_New [Sink 1 False, Stdout] labelInfo flags) 3 ''x'')" for ev
  proof -
    from verbose_adds_stdout [OF reach_start i st sv, of ev 0 "''x''"]
    obtain sys lg line evs where
      lk: "lookup wv (length (loggers world0)) = Some lg" and
      ln: "line = log_line ev (channel lg sInfo) (3 + 0) ''x''" and
      ev: "evs = multi_Write ev ([Sink 1 False] @ sys @ (if True then [Stdout] else [])) line" and
      o: "Logger_output ev (length (loggers world0)) sInfo 0 ''x'' wv =
         (Return (), wv\<lparr>trace := trace wv @ evs\<rparr>)"
      by (elim exE conjE) (rule that, assumption+)
    have lg: "lg = \<lparr>infoLog = log_New ([Sink 1 False] @ [Stdout]) labelInfo flags,
           warnLog = log_New ([Sink 1 False] @ [Stdout]) labelWarn flags,
           errorLog = log_New [Sink 1 False, Stderr] labelErr flags,
           fatalLog = log_New [Sink 1 False, Stderr] labelFatal flags,
           closers = [],
           initialized = True, level = 0\<rparr>"
      using lk lkd by (simp add: default_world0)
    have direct: "Logger_output ev 1 sInfo 0 ''x'' wv =
       (Return (), wv\<lparr>trace := trace wv @
          multi_Write ev (logOut (infoLog lg)) (log_line ev (infoLog lg) 3 ''x'')\<rparr>)"
      using output_eq [OF valid_sev(1), of wv 1 lg ev 0 "''x''"] lk
      by (simp add: default_world0 log_Output_def)
    show ?thesis
      unfolding direct by (simp add: tw lg) (simp add: log_New_def)
  qed
  have t1: "trace (snd (Logger_output sample_env 1 sInfo 0 ''x'' wv)) =
     [Write (Sink 1 False) (''[INFO]: 2009/11/10 23:00:00.000000 main.go:12: x'' @ [newline]),
      Write Stdout (''[INFO]: 2009/11/10 23:00:00.000000 main.go:12: x'' @ [newline])]"
    unfolding tr info_line_sample by (simp add: write_to_def)
  have t2: "trace (snd (Logger_output broken_sink_env 1 sInfo 0 ''x'' wv)) =
     [FailedWrite (Sink 1 False) (''[INFO]: 2009/11/10 23:00:00.000000 main.go:12: x'' @ [newline])]"
    unfolding tr info_line_broken by (simp add: write_to_def)
  from reach_start i st sv t1 t2 show ?thesis unfolding wv_def by simp
qed

text \<open>
  The claim as the specification words it fails in both halves. With \<open>verbose = false\<close>
  and \<open>Init(name, false, false, os.Stdout)\<close> the primary destination is standard output,
  and an info record is written to it. With \<open>verbose = true\<close> and a primary destination
  that fails the write, the record does not reach standard output.
\<close>

theorem verbose_stdout_counterexample:
  "trace (snd (Logger_Info sample_env 1 ''x''
            (snd (Init sample_env ''app'' False False Stdout world0)))) =
     [Write Stdout (''[INFO]: 2009/11/10 23:00:00.000000 main.go:12: x'' @ [newline])] \<and>
   trace (snd (Logger_Info broken_sink_env 1 ''x''
            (snd (Init sample_env ''app'' True False (Sink 1 False) world0)))) =
     [FailedWrite (Sink 1 False) (''[INFO]: 2009/11/10 23:00:00.000000 main.go:12: x'' @ [newline])]"
proof -
  have o: "trace (snd (Logger_Info ev 1 ''x'' (snd (Init sample_env ''app'' vb False fd world0)))) =
      multi_Write ev ([fd] @ (if vb then [Stdout] else []))
        (log_line ev (log_New ([fd] @ (if vb then [Stdout] else [])) labelInfo flags) 3 ''x'')"
    for ev vb fd
    using output_eq [OF valid_sev(1) Init_world0_lookup(1) [of sample_env "''app''" vb fd],
        of ev 0 "''x''"]
      Init_world0_lookup(2) [of sample_env "''app''" vb fd]
    by (simp add: Logger_Info_def log_Output_def) (simp add: log_New_def)
  have a: "trace (snd (Logger_Info sample_env 1 ''x''
            (snd (Init sample_env ''app'' False False Stdout world0)))) =
     [Write Stdout (''[INFO]: 2009/11/10 23:00:00.000000 main.go:12: x'' @ [newline])]"
    unfolding o info_line_sample by (simp add: write_to_def)
  have b: "trace (snd (Logger_Info broken_sink_env 1 ''x''
            (snd (Init sample_env ''app'' True False (Sink 1 False) world0)))) =
     [FailedWrite (Sink 1 False) (''[INFO]: 2009/11/10 23:00:00.000000 main.go:12: x'' @ [newline])]"
    unfolding o info_line_broken by (simp add: write_to_def)
  from a b show ?thesis ..
qed

subsection \<open>C6: a fatal record, then the closers, then exit status 1\<close>

text \<open>
  Claim C6. In every state that a process can reach and for every \<open>Logger\<close> in it,
  each of \<open>Fatal\<close>, \<open>FatalDepth\<close>, \<open>Fatalln\<close> and \<open>Fatalf\<close> ends the process with exit
  status 1, and what it has done by then is, in this order: one record of the fatal
  channel written to the destinations of that channel (in order and up to the first one
  that fails the write, so to each of them when none fails), then the loop of \<open>Close\<close>
  over all closers of the \<open>Logger\<close>. The loop calls \<open>Close\<close> on every closer, whatever
  errors the closers report. The package-level functions do the same on the default
  logger, which every reachable state has.
\<close>

theorem fatal_writes_closes_exits:
  assumes "reachable w" and "lookup w l = Some lg"
  shows
   "Logger_Fatal e l v w =
      (Exit 1, w\<lparr>trace := trace w @
          multi_Write e (logOut (fatalLog lg)) (log_line e (fatalLog lg) 3 v) @
          close_all e (closers lg)\<rparr>) \<and>
    Logger_FatalDepth e l depth v w =
      (Exit 1, w\<lparr>trace := trace w @
          multi_Write e (logOut (fatalLog lg)) (log_line e (fatalLog lg) (3 + depth) v) @
          close_all e (closers lg)\<rparr>) \<and>
    Logger_Fatalln e l v w =
      (Exit 1, w\<lparr>trace := trace w @
          multi_Write e (logOut (fatalLog lg)) (log_line e (fatalLog lg) 3 (v @ [newline])) @
          close_all e (closers lg)\<rparr>) \<and>
    Logger_Fatalf e l v w =
      (Exit 1, w\<lparr>trace := trace w @
          multi_Write e (logOut (fatalLog lg)) (log_line e (fatalLog lg) 3 v) @
          close_all e (closers lg)\<rparr>) \<and>
    (l = defaultLogger w \<longrightarrow>
       Fatal e v w = Logger_Fatal e l v w \<and>
       FatalDepth e depth v w = Logger_FatalDepth e l depth v w \<and>
       Fatalln e v w = Logger_Fatalln e l v w \<and>
       Fatalf e v w = Logger_Fatalf e l v w) \<and>
    (\<exists>dl. lookup w (defaultLogger w) = Some dl) \<and>
    closed_by (close_all e (closers lg)) = closers lg \<and>
    ((\<forall>d \<in> set (logOut (fatalLog lg)). \<not> writeFails e d) \<longrightarrow>
       (\<forall>p. multi_Write e (logOut (fatalLog lg)) p =
            map (\<lambda>d. Write d p) (logOut (fatalLog lg))))"
proof -
  have i: "inv w" using assms(1) by (rule reachable_inv)
  note s = fatal_seq [OF i assms(2)]
  have m: "Logger_Fatal e l v w =
      (Exit 1, w\<lparr>trace := trace w @
          multi_Write e (logOut (fatalLog lg)) (log_line e (fatalLog lg) 3 v) @
          close_all e (closers lg)\<rparr>)"
    "Logger_FatalDepth e l depth v w =
      (Exit 1, w\<lparr>trace := trace w @
          multi_Write e (logOut (fatalLog lg)) (log_line e (fatalLog lg) (3 + depth) v) @
          close_all e (closers lg)\<rparr>)"
    "Logger_Fatalln e l v w =
      (Exit 1, w\<lparr>trace := trace w @
          multi_Write e (logOut (fatalLog lg)) (log_line e (fatalLog lg) 3 (v @ [newline])) @
          close_all e (closers lg)\<rparr>)"
    "Logger_Fatalf e l v w =
      (Exit 1, w\<lparr>trace := trace w @
          multi_Write e (logOut (fatalLog lg)) (log_line e (fatalLog lg) 3 v) @
          close_all e (closers lg)\<rparr>)"
    using s [of e 0 v] s [of e depth v] s [of e 0 "v @ [newline]"]
    by (simp_all add: Logger_Fatal_def Logger_FatalDepth_def Logger_Fatalln_def Logger_Fatalf_def)
  have same: "defaultLogger (snd (Logger_output e (defaultLogger w) sFatal dp x w)) = defaultLogger w"
    for dp x
    by (simp add: Logger_output_def split: option.splits)
  have p: "l = defaultLogger w \<longrightarrow>
       Fatal e v w = Logger_Fatal e l v w \<and>
       FatalDepth e depth v w = Logger_FatalDepth e l depth v w \<and>
       Fatalln e v w = Logger_Fatalln e l v w \<and>
       Fatalf e v w = Logger_Fatalf e l v w"
  proof
    assume l: "l = defaultLogger w"
    have o: "Logger_output e (defaultLogger w) sFatal dp x w =
        (Return (), w\<lparr>trace := trace w @ log_Output e (fatalLog lg) (3 + dp) x\<rparr>)" for dp x
      using output_eq [OF valid_sev(4) assms(2), of e dp x] l by simp
    show "Fatal e v w = Logger_Fatal e l v w \<and>
       FatalDepth e depth v w = Logger_FatalDepth e l depth v w \<and>
       Fatalln e v w = Logger_Fatalln e l v w \<and>
       Fatalf e v w = Logger_Fatalf e l v w"
      by (simp add: Fatal_def FatalDepth_def Fatalln_def Fatalf_def Logger_Fatal_def
          Logger_FatalDepth_def Logger_Fatalln_def Logger_Fatalf_def o l andThen_def)
  qed
  have d: "\<exists>dl. lookup w (defaultLogger w) = Some dl"
    using i by (simp add: inv_def lookup_def)
  have ok: "(\<forall>d \<in> set (logOut (fatalLog lg)). \<not> writeFails e d) \<longrightarrow>
       (\<forall>p. multi_Write e (logOut (fatalLog lg)) p =
            map (\<lambda>d. Write d p) (logOut (fatalLog lg)))"
    by (simp add: multi_Write_ok)
  from m p d closed_by_close_all [of e "closers lg"] ok show ?thesis by blast
qed

theorem fatal_writes_closes_exits_witness:
  "reachable world1 \<and> lookup world1 1 = Some (loggers world1 ! 1) \<and>
   fst (Logger_Fatal closed_env 1 ''boom'' world1) = Exit 1 \<and>
   trace (snd (Logger_Fatal closed_env 1 ''boom'' world1)) =
     [Write (Sink 1 True) (''[FATAL]: 2009/11/10 23:00:00.000000 main.go:12: boom'' @ [newline]),
      Write Stderr (''[FATAL]: 2009/11/10 23:00:00.000000 main.go:12: boom'' @ [newline]),
      CloseCall (Sink 1 True),
      Write Stderr (''[ERROR]: Failed to close log &{0xc000012345}: file already closed'' @ [newline])] \<and>
   Fatal closed_env ''boom'' world1 = Logger_Fatal closed_env 1 ''boom'' world1"
  using fatal_writes_closes_exits [OF reachable_world1 lookup_world1, of closed_env "''boom''" 0]
    reachable_world1 lookup_world1
  by (simp add: logger_world1 trace_world1 log_New_def log_line_def flags_no_msgprefix
      closed_env_def sample_env_def sample_header_flags labelFatal_def newline_def write_to_def)

subsection \<open>C7: the severity label and the marker of the uninitialized default logger\<close>

text \<open>
  Claim C7, as the code has it. In every reachable state a logging call of a valid
  severity on a \<open>Logger\<close> returns, having written one record to the destinations of the
  channel of that severity (in order, up to the first that fails the write). The
  channel's prefix is the severity label, one of \<open>[INFO]: \<close>, \<open>[WARN]: \<close>, \<open>[ERROR]: \<close> and
  \<open>[FATAL]: \<close>, for an initialized \<open>Logger\<close>; for one that is not initialized it is the
  text \<open>[ERROR]: Logging before logger initiated!\<close>, a newline, and then the severity
  label, and the only destination is standard error. The record begins with the prefix
  whenever the channel's flags do not hold \<open>log.Lmsgprefix\<close>, and they never do in a
  process in which \<open>SetFlags\<close> is not given that flag; in any case the record holds the
  prefix. Before any call of \<open>Init\<close>, in a new process or after the reset of the tests and
  whatever other calls were made, the default logger is not initialized.
\<close>

theorem record_begins_with_label:
  assumes "reachable w" and "lookup w l = Some lg" and "valid_severity s"
  shows
   "Logger_output e l s depth msg w =
      (Return (), w\<lparr>trace := trace w @
         multi_Write e (logOut (channel lg s)) (log_line e (channel lg s) (3 + depth) msg)\<rparr>) \<and>
    label_of s \<in> {''[INFO]: '', ''[WARN]: '', ''[ERROR]: '', ''[FATAL]: ''} \<and>
    logPrefix (channel lg s) =
      (if initialized lg then label_of s
       else ''[ERROR]: Logging before logger initiated!'' @ [newline] @ label_of s) \<and>
    (\<not> initialized lg \<longrightarrow> logOut (channel lg s) = [Stderr]) \<and>
    (logFlag (channel lg s) AND Lmsgprefix = 0 \<longrightarrow>
       prefix (if initialized lg then label_of s
               else ''[ERROR]: Logging before logger initiated!'' @ [newline] @ label_of s)
         (log_line e (channel lg s) (3 + depth) msg)) \<and>
    (reachable_plain w \<longrightarrow>
       logFlag (channel lg s) AND Lmsgprefix = 0 \<and>
       prefix (if initialized lg then label_of s
               else ''[ERROR]: Logging before logger initiated!'' @ [newline] @ label_of s)
         (log_line e (channel lg s) (3 + depth) msg)) \<and>
    (\<exists>h rest. log_line e (channel lg s) (3 + depth) msg =
       h @ (if initialized lg then label_of s
            else ''[ERROR]: Logging before logger initiated!'' @ [newline] @ label_of s) @ rest) \<and>
    (other_step\<^sup>*\<^sup>* world0 w \<or> (\<exists>w0. reachable w0 \<and> other_step\<^sup>*\<^sup>* (init_logger w0) w) \<longrightarrow>
       (\<exists>dl. lookup w (defaultLogger w) = Some dl \<and> \<not> initialized dl))"
proof -
  define pre where "pre = (if initialized lg then label_of s
       else ''[ERROR]: Logging before logger initiated!'' @ [newline] @ label_of s)"
  define line where "line = log_line e (channel lg s) (3 + depth) msg"
  have i: "inv w" using assms(1) by (rule reachable_inv)
  note c = inv_channel [OF i assms(2,3)]
  have o: "Logger_output e l s depth msg w =
      (Return (), w\<lparr>trace := trace w @ multi_Write e (logOut (channel lg s)) line\<rparr>)"
    using output_eq [OF assms(3,2)] by (simp add: log_Output_def line_def)
  have p: "logPrefix (channel lg s) = pre"
    using c by (simp add: pre_def initText_def)
  have d: "\<not> initialized lg \<longrightarrow> logOut (channel lg s) = [Stderr]"
    using c by simp
  have g: "logFlag (channel lg s) AND Lmsgprefix = 0 \<longrightarrow> prefix pre line"
    using log_line_prefix [of "channel lg s" e "3 + depth" msg] p by (simp add: line_def)
  have q: "reachable_plain w \<longrightarrow> logFlag (channel lg s) AND Lmsgprefix = 0 \<and> prefix pre line"
    using plain_channel [OF _ assms(2,3)] g by blast
  have x: "\<exists>h rest. line = h @ pre @ rest"
    using log_line_contains [of e "channel lg s" "3 + depth" msg] p by (simp add: line_def)
  have bi: "other_step\<^sup>*\<^sup>* world0 w \<or> (\<exists>w0. reachable w0 \<and> other_step\<^sup>*\<^sup>* (init_logger w0) w) \<longrightarrow>
       (\<exists>dl. lookup w (defaultLogger w) = Some dl \<and> \<not> initialized dl)"
    using before_Init_uninitialized fresh_process_uninitialized by blast
  from o label_of_set [of s] p d g q x bi show ?thesis
    unfolding pre_def line_def by blast
qed

theorem record_begins_with_label_witness:
  "reachable world0 \<and> lookup world0 0 = Some (loggers world0 ! 0) \<and> valid_severity sInfo \<and>
   reachable_plain world0 \<and> other_step\<^sup>*\<^sup>* world0 world0 \<and>
   \<not> initialized (loggers world0 ! 0) \<and>
   Info sample_env ''x'' world0 =
     (Return (), world0\<lparr>trace :=
        [Write Stderr (''[ERROR]: Logging before logger initiated!'' @ [newline] @
           ''[INFO]: 2009/11/10 23:00:00.000000 main.go:12: x'' @ [newline])]\<rparr>) \<and>
   reachable world1 \<and> reachable_plain world1 \<and>
   Logger_Warning sample_env 1 ''y'' world1 =
     (Return (), world1\<lparr>trace :=
        [Write (Sink 1 True) (''[WARN]: 2009/11/10 23:00:00.000000 main.go:12: y'' @ [newline])]\<rparr>)"
proof -
  have o: "other_step\<^sup>*\<^sup>* world0 world0" by simp
  have l0: "loggers world0 ! 0 =
      \<lparr>infoLog = log_New [Stderr] (initText @ labelInfo) flags,
       warnLog = log_New [Stderr] (initText @ labelWarn) flags,
       errorLog = log_New [Stderr] (initText @ labelErr) flags,
       fatalLog = log_New [Stderr] (initText @ labelFatal) flags,
       closers = [], initialized = False, level = 0\<rparr>"
    by (simp add: world0_def init_logger_def)
  have ln: "log_line sample_env (log_New [Stderr] (initText @ labelInfo) flags) 3 ''x'' =
      ''[ERROR]: Logging before logger initiated!'' @ [newline] @
           ''[INFO]: 2009/11/10 23:00:00.000000 main.go:12: x'' @ [newline]"
    by (simp add: log_line_def log_New_def flags_no_msgprefix sample_header_flags
        initText_def labelInfo_def newline_def)
  from record_begins_with_label [OF reach_start lookup_world0 valid_sev(1), of sample_env 0 "''x''"]
  have "Logger_output sample_env 0 sInfo 0 ''x'' world0 =
      (Return (), world0\<lparr>trace := trace world0 @
         multi_Write sample_env (logOut (channel (loggers world0 ! 0) sInfo))
           (log_line sample_env (channel (loggers world0 ! 0) sInfo) (3 + 0) ''x'')\<rparr>)"
    by blast
  then have a: "Info sample_env ''x'' world0 =
     (Return (), world0\<lparr>trace :=
        [Write Stderr (''[ERROR]: Logging before logger initiated!'' @ [newline] @
           ''[INFO]: 2009/11/10 23:00:00.000000 main.go:12: x'' @ [newline])]\<rparr>)"
    by (simp add: Info_def default_world0 trace_world0 l0 ln) (simp add: log_New_def write_to_def)
  have wl: "log_line sample_env (log_New ws labelWarn flags) 3 ''y'' =
      ''[WARN]: 2009/11/10 23:00:00.000000 main.go:12: y'' @ [newline]" for ws
    by (simp add: log_line_def log_New_def flags_no_msgprefix sample_header_flags
        labelWarn_def newline_def)
  from record_begins_with_label [OF reachable_world1 lookup_world1 valid_sev(2), of sample_env 0 "''y''"]
  have "Logger_output sample_env 1 sWarn 0 ''y'' world1 =
      (Return (), world1\<lparr>trace := trace world1 @
         multi_Write sample_env (logOut (channel (loggers world1 ! 1) sWarn))
           (log_line sample_env (channel (loggers world1 ! 1) sWarn) (3 + 0) ''y'')\<rparr>)"
    by blast
  then have b: "Logger_Warning sample_env 1 ''y'' world1 =
     (Return (), world1\<lparr>trace :=
        [Write (Sink 1 True) (''[WARN]: 2009/11/10 23:00:00.000000 main.go:12: y'' @ [newline])]\<rparr>)"
    by (simp add: Logger_Warning_def trace_world1 logger_world1 wl)
       (simp add: log_New_def write_to_def)
  from reach_start lookup_world0 plain_start o not_initialized_world0 a
    reachable_world1 reachable_plain_world1 b
  show ?thesis by simp
qed

text \<open>
  The claim as the specification words it ("every emitted record line begins with the
  severity label") fails once \<open>SetFlags\<close> has given the default logger the flag
  \<open>log.Lmsgprefix\<close>, which package \<open>log\<close> documents as moving the prefix from the beginning
  of the line to before the message: after \<open>SetFlags(log.Ldate | log.Lmsgprefix)\<close> an info
  record begins with the date.
\<close>

theorem msgprefix_counterexample:
  "SetFlags (Ldate OR Lmsgprefix) world1 =
     (Return (), snd (SetFlags (Ldate OR Lmsgprefix) world1)) \<and>
   trace (snd (Info sample_env ''x'' (snd (SetFlags (Ldate OR Lmsgprefix) world1)))) =
     [Write (Sink 1 True) (''2009/11/10 [INFO]: x'' @ [newline])] \<and>
   \<not> prefix ''[INFO]: '' (''2009/11/10 [INFO]: x'' @ [newline])"
proof -
  define lg where "lg =
         \<lparr>infoLog = log_New [Sink 1 True] labelInfo (Ldate OR Lmsgprefix),
          warnLog = log_New [Sink 1 True] labelWarn (Ldate OR Lmsgprefix),
          errorLog = log_New [Sink 1 True, Stderr] labelErr (Ldate OR Lmsgprefix),
          fatalLog = log_New [Sink 1 True, Stderr] labelFatal (Ldate OR Lmsgprefix),
          closers = [Sink 1 True],
          initialized = True, level = 0\<rparr>"
  define wf where "wf = snd (SetFlags (Ldate OR Lmsgprefix) world1)"
  have wf: "wf = world1\<lparr>loggers := (loggers world1)[Suc 0 := lg]\<rparr>"
    by (simp add: wf_def SetFlags_world1 lg_def)
  have len: "length (loggers world1) = 2"
    by (simp add: world1_eq default_world0)
  have lk: "lookup wf (defaultLogger wf) = Some lg"
    by (simp add: wf lookup_def trace_world1 len)
  have hd: "sample_header (Ldate OR Lmsgprefix) 3 = ''2009/11/10 ''"
    by (simp add: sample_header_def Ldate_def Lmsgprefix_def Ltime_def Lmicroseconds_def
        Lshortfile_def Llongfile_def)
  have nz: "(Ldate OR Lmsgprefix) AND Lmsgprefix \<noteq> 0"
    by (simp add: Ldate_def Lmsgprefix_def)
  have ln: "log_line sample_env (infoLog lg) 3 ''x'' = ''2009/11/10 [INFO]: x'' @ [newline]"
    using nz by (simp add: log_line_def lg_def log_New_def sample_env_def hd labelInfo_def newline_def)
  have "Info sample_env ''x'' wf =
      (Return (), wf\<lparr>trace := trace wf @ [Write (Sink 1 True) (''2009/11/10 [INFO]: x'' @ [newline])]\<rparr>)"
    using output_eq [OF valid_sev(1) lk, of sample_env 0 "''x''"]
    by (simp add: Info_def log_Output_def ln) (simp add: lg_def log_New_def write_to_def)
  then have t: "trace (snd (Info sample_env ''x'' wf)) =
     [Write (Sink 1 True) (''2009/11/10 [INFO]: x'' @ [newline])]"
    by (simp add: wf trace_world1)
  have s: "SetFlags (Ldate OR Lmsgprefix) world1 = (Return (), wf)"
    by (simp add: wf_def SetFlags_world1)
  have n: "\<not> prefix ''[INFO]: '' (''2009/11/10 [INFO]: x'' @ [newline])" by simp
  from s t n show ?thesis unfolding wf_def by blast
qed

subsection \<open>C8: a failing system-log adapter does not fail Init\<close>

text \<open>
  Claim C8. When \<open>setup\<close> reports an error, \<open>Init\<close> with \<open>systemLog = true\<close> still returns
  the address of a new, initialized \<open>Logger\<close>: its channels write to the primary
  destination (and to standard output for info and warning when verbose, to standard
  error for error and fatal), every later logging call on it returns, and the only
  result of \<open>Init\<close> is that address. Before \<open>Init\<close> returns, the error text is written
  as one record of the new logger's error channel, with the label of the error severity
  in front: to the primary destination and then to standard error (to both when neither
  fails the write), and nothing else is written.
\<close>

theorem Init_syslog_failure:
  assumes "lookup w (defaultLogger w) = Some d"
    and "setup_syslog e name = (il, wl, el, Some err)"
  shows "\<exists>w' l. Init e name verbose True logFd w = (Return (length (loggers w)), w') \<and>
      lookup w' (length (loggers w)) = Some l \<and> initialized l \<and>
      logOut (infoLog l) = [logFd] @ (if verbose then [Stdout] else []) \<and>
      logOut (warnLog l) = [logFd] @ (if verbose then [Stdout] else []) \<and>
      logOut (errorLog l) = [logFd, Stderr] \<and>
      logOut (fatalLog l) = [logFd, Stderr] \<and>
      trace w' = trace w @
        multi_Write e [logFd, Stderr] (labelErr @ header e flags 3 @ err @
           (if err = [] \<or> last err \<noteq> newline then [newline] else [])) \<and>
      (\<not> writeFails e logFd \<and> \<not> writeFails e Stderr \<longrightarrow>
         trace w' = trace w @
           [Write logFd (labelErr @ header e flags 3 @ err @
              (if err = [] \<or> last err \<noteq> newline then [newline] else [])),
            Write Stderr (labelErr @ header e flags 3 @ err @
              (if err = [] \<or> last err \<noteq> newline then [newline] else []))]) \<and>
      (\<forall>e' s depth msg. valid_severity s \<longrightarrow>
         fst (Logger_output e' (length (loggers w)) s depth msg w') = Return ())"
proof -
  have f: "setup_syslog e name = (None, None, None, Some err)"
    using setup_cases [of e name] assms(2) by auto
  define l where "l = fst (build_Logger e name verbose True logFd)"
  have b: "build_Logger e name verbose True logFd = (l, Some err)"
    using build_plain [of True e name "Some err" verbose logFd] f by (simp add: l_def)
  have lv: "logOut (infoLog l) = [logFd] @ (if verbose then [Stdout] else [])"
    "logOut (warnLog l) = [logFd] @ (if verbose then [Stdout] else [])"
    "logOut (errorLog l) = [logFd, Stderr]" "logOut (fatalLog l) = [logFd, Stderr]"
    "initialized l" "logPrefix (errorLog l) = labelErr" "logFlag (errorLog l) = flags"
    using build_plain [of True e name "Some err" verbose logFd] f
    by (simp_all add: l_def log_New_def)
  define w' where "w' = snd (Init e name verbose True logFd w)"
  note i = Init_eq [OF assms(1) b]
  have r: "Init e name verbose True logFd w = (Return (length (loggers w)), w')"
    using i by (simp add: w'_def)
  have lk: "lookup w' (length (loggers w)) = Some l"
    using i by (simp add: w'_def lookup_def)
  have tr: "trace w' = trace w @
        multi_Write e [logFd, Stderr] (labelErr @ header e flags 3 @ err @
           (if err = [] \<or> last err \<noteq> newline then [newline] else []))"
    using i lv by (simp add: w'_def log_Output_def log_line_def flags_no_msgprefix)
  have tr2: "\<not> writeFails e logFd \<and> \<not> writeFails e Stderr \<longrightarrow>
         trace w' = trace w @
           [Write logFd (labelErr @ header e flags 3 @ err @
              (if err = [] \<or> last err \<noteq> newline then [newline] else [])),
            Write Stderr (labelErr @ header e flags 3 @ err @
              (if err = [] \<or> last err \<noteq> newline then [newline] else []))]"
    unfolding tr by (simp add: write_to_def)
  have works: "fst (Logger_output e' (length (loggers w)) s depth msg w') = Return ()"
    if "valid_severity s" for e' s depth msg
    using output_eq [OF that lk] by simp
  from r lk lv tr tr2 works show ?thesis by blast
qed

theorem Init_syslog_failure_witness:
  "lookup world0 (defaultLogger world0) = Some (loggers world0 ! 0) \<and>
   setup_syslog no_syslog_env ''app'' = (None, None, None, Some ''Unix syslog delivery error'') \<and>
   fst (Init no_syslog_env ''app'' False True (Sink 0 False) world0) = Return 1 \<and>
   trace (snd (Init no_syslog_env ''app'' False True (Sink 0 False) world0)) =
     [Write (Sink 0 False)
        (''[ERROR]: 2009/11/10 23:00:00.000000 main.go:12: Unix syslog delivery error'' @ [newline]),
      Write Stderr
        (''[ERROR]: 2009/11/10 23:00:00.000000 main.go:12: Unix syslog delivery error'' @ [newline])]"
  using Init_syslog_failure [OF lookup_default_world0 setup_no_syslog,
      of "''app''" False "Sink 0 False"]
    lookup_default_world0 setup_no_syslog
  by (auto simp: default_world0 labelErr_def no_syslog_env_def sample_env_def sample_header_flags
      newline_def world0_def init_logger_def write_to_def)

subsection \<open>C9: a disabled verbosity handle does nothing\<close>

text \<open>
  Claim C9. For a \<open>Verbose\<close> handle whose enabled flag is false, \<open>Info\<close>, \<open>Infoln\<close> and
  \<open>Infof\<close> return at once and leave the whole state as it was: no write, no change of
  any \<open>Logger\<close>. When the flag is true and the handle is bound to a \<open>Logger\<close>, each of
  them leaves the loggers as they were and writes exactly one record of the info channel
  of that \<open>Logger\<close> to the destinations of the channel: in order and up to the first one
  that fails the write, so to each of them when none fails.
\<close>

theorem verbose_gate:
  "(\<not> enabled v \<longrightarrow>
      Verbose_Info e v args w = (Return (), w) \<and>
      Verbose_Infoln e v args w = (Return (), w) \<and>
      Verbose_Infof e v args w = (Return (), w)) \<and>
   (enabled v \<and> lookup w (logger v) = Some lg \<longrightarrow>
      Verbose_Info e v args w =
        (Return (), w\<lparr>trace := trace w @
           multi_Write e (logOut (infoLog lg)) (log_line e (infoLog lg) 3 args)\<rparr>) \<and>
      Verbose_Infoln e v args w =
        (Return (), w\<lparr>trace := trace w @
           multi_Write e (logOut (infoLog lg)) (log_line e (infoLog lg) 3 (args @ [newline]))\<rparr>) \<and>
      Verbose_Infof e v args w =
        (Return (), w\<lparr>trace := trace w @
           multi_Write e (logOut (infoLog lg)) (log_line e (infoLog lg) 3 args)\<rparr>) \<and>
      ((\<forall>d \<in> set (logOut (infoLog lg)). \<not> writeFails e d) \<longrightarrow>
         (\<forall>p. multi_Write e (logOut (infoLog lg)) p =
              map (\<lambda>d. Write d p) (logOut (infoLog lg)))))"
  by (simp add: Verbose_Info_def Verbose_Infoln_def Verbose_Infof_def
      output_eq [where lg = lg] log_Output_def multi_Write_ok)

theorem verbose_gate_witness:
  "Verbose_Info sample_env \<lparr>enabled = False, logger = 0\<rparr> ''x'' world0 = (Return (), world0) \<and>
   Verbose_Info sample_env \<lparr>enabled = True, logger = 0\<rparr> ''x'' world0 =
     (Return (), world0\<lparr>trace :=
        [Write Stderr (''[ERROR]: Logging before logger initiated!'' @ [newline] @
           ''[INFO]: 2009/11/10 23:00:00.000000 main.go:12: x'' @ [newline])]\<rparr>)"
  using verbose_gate [of "\<lparr>enabled = False, logger = 0\<rparr>" sample_env "''x''" world0]
    verbose_gate [of "\<lparr>enabled = True, logger = 0\<rparr>" sample_env "''x''" world0 "loggers world0 ! 0"]
    lookup_world0
  by (simp add: world0_def init_logger_def log_line_def log_New_def flags_def Ldate_def
      Lmicroseconds_def Lshortfile_def Lmsgprefix_def Llongfile_def Ltime_def
      sample_env_def sample_header_def initText_def labelInfo_def newline_def write_to_def)

subsection \<open>C10: the system-log adapter gives all three writers or none\<close>

text \<open>
  Claim C10. For every source name, \<open>setup\<close> returns either three writers and no error,
  or no writer and an error. So \<open>Init\<close> with \<open>systemLog = true\<close> (in a state that has a
  default logger) returns a \<open>Logger\<close> whose info, warning and error channels (and the
  fatal channel, which shares the error destinations) all carry their system-log writer
  behind the primary destination, or of which none does.
\<close>

theorem syslog_all_or_nothing:
  assumes "lookup w (defaultLogger w) = Some d"
  shows "(setup_syslog e name =
            (Some (Syslog (LOG_USER OR LOG_NOTICE) name), Some (Syslog (LOG_USER OR LOG_WARNING) name),
             Some (Syslog (LOG_USER OR LOG_ERR) name), None) \<or>
          (\<exists>err. setup_syslog e name = (None, None, None, Some err))) \<and>
    (\<exists>w' l. Init e name verbose True logFd w = (Return (length (loggers w)), w') \<and>
       lookup w' (length (loggers w)) = Some l \<and>
       ((setup_syslog e name =
            (Some (Syslog (LOG_USER OR LOG_NOTICE) name), Some (Syslog (LOG_USER OR LOG_WARNING) name),
             Some (Syslog (LOG_USER OR LOG_ERR) name), None) \<and>
         logOut (infoLog l) =
           [logFd, Syslog (LOG_USER OR LOG_NOTICE) name] @ (if verbose then [Stdout] else []) \<and>
         logOut (warnLog l) =
           [logFd, Syslog (LOG_USER OR LOG_WARNING) name] @ (if verbose then [Stdout] else []) \<and>
         logOut (errorLog l) = [logFd, Syslog (LOG_USER OR LOG_ERR) name, Stderr] \<and>
         logOut (fatalLog l) = [logFd, Syslog (LOG_USER OR LOG_ERR) name, Stderr]) \<or>
        ((\<exists>err. setup_syslog e name = (None, None, None, Some err)) \<and>
         logOut (infoLog l) = [logFd] @ (if verbose then [Stdout] else []) \<and>
         logOut (warnLog l) = [logFd] @ (if verbose then [Stdout] else []) \<and>
         logOut (errorLog l) = [logFd, Stderr] \<and>
         logOut (fatalLog l) = [logFd, Stderr])))"
proof -
  note c = setup_cases [of e name]
  obtain l serr where b: "build_Logger e name verbose True logFd = (l, serr)"
    by (cases "build_Logger e name verbose True logFd")
  note i = Init_eq [OF assms b]
  define w' where "w' = snd (Init e name verbose True logFd w)"
  have r: "Init e name verbose True logFd w = (Return (length (loggers w)), w')"
    using i by (simp add: w'_def)
  have lk: "lookup w' (length (loggers w)) = Some l"
    using i by (simp add: w'_def lookup_def)
  from c show ?thesis
  proof
    assume ok: "setup_syslog e name =
            (Some (Syslog (LOG_USER OR LOG_NOTICE) name), Some (Syslog (LOG_USER OR LOG_WARNING) name),
             Some (Syslog (LOG_USER OR LOG_ERR) name), None)"
    from build_ok [OF ok, of verbose logFd] b
    have "logOut (infoLog l) =
           [logFd, Syslog (LOG_USER OR LOG_NOTICE) name] @ (if verbose then [Stdout] else []) \<and>
         logOut (warnLog l) =
           [logFd, Syslog (LOG_USER OR LOG_WARNING) name] @ (if verbose then [Stdout] else []) \<and>
         logOut (errorLog l) = [logFd, Syslog (LOG_USER OR LOG_ERR) name, Stderr] \<and>
         logOut (fatalLog l) = [logFd, Syslog (LOG_USER OR LOG_ERR) name, Stderr]"
      by (auto simp: log_New_def)
    with ok r lk show ?thesis by blast
  next
    assume "\<exists>err. setup_syslog e name = (None, None, None, Some err)"
    then obtain err where f: "setup_syslog e name = (None, None, None, Some err)" ..
    from build_plain [of True e name "Some err" verbose logFd] f b
    have "logOut (infoLog l) = [logFd] @ (if verbose then [Stdout] else []) \<and>
         logOut (warnLog l) = [logFd] @ (if verbose then [Stdout] else []) \<and>
         logOut (errorLog l) = [logFd, Stderr] \<and>
         logOut (fatalLog l) = [logFd, Stderr]"
      by (auto simp: log_New_def)
    with f r lk show ?thesis by blast
  qed
qed

theorem syslog_all_or_nothing_witness:
  "lookup world0 (defaultLogger world0) = Some (loggers world0 ! 0) \<and>
   fst (Init sample_env ''app'' False True (Sink 0 False) world0) = Return 1 \<and>
   logOut (infoLog (loggers (snd (Init sample_env ''app'' False True (Sink 0 False) world0)) ! 1)) =
     [Sink 0 False, Syslog 13 ''app''] \<and>
   logOut (warnLog (loggers (snd (Init sample_env ''app'' False True (Sink 0 False) world0)) ! 1)) =
     [Sink 0 False, Syslog 12 ''app''] \<and>
   logOut (errorLog (loggers (snd (Init sample_env ''app'' False True (Sink 0 False) world0)) ! 1)) =
     [Sink 0 False, Syslog 11 ''app'', Stderr] \<and>
   fst (Init no_syslog_env ''app'' False True (Sink 0 False) world0) = Return 1 \<and>
   logOut (infoLog (loggers (snd (Init no_syslog_env ''app'' False True (Sink 0 False) world0)) ! 1)) =
     [Sink 0 False] \<and>
   logOut (warnLog (loggers (snd (Init no_syslog_env ''app'' False True (Sink 0 False) world0)) ! 1)) =
     [Sink 0 False] \<and>
   logOut (errorLog (loggers (snd (Init no_syslog_env ''app'' False True (Sink 0 False) world0)) ! 1)) =
     [Sink 0 False, Stderr]"
  using syslog_all_or_nothing [OF lookup_default_world0, of sample_env "''app''" False "Sink 0 False"]
    syslog_all_or_nothing [OF lookup_default_world0, of no_syslog_env "''app''" False "Sink 0 False"]
    lookup_default_world0
  by (auto simp: setup_sample setup_no_syslog default_world0 lookup_def
      LOG_USER_def LOG_NOTICE_def LOG_WARNING_def LOG_ERR_def split: if_splits)

end
